theory Spec2Isabelle
  imports Complex_Main "HOL-Library.Sublist" "HOL-Library.Multiset"
begin

section \<open>JavaScript values\<close>

text \<open>
  The scoring rubric is TypeScript, but it checks the run-time type of what it is given
  (\<^verbatim>\<open>Array.isArray\<close>, \<^verbatim>\<open>typeof\<close>, the truthiness of a region entry),
  and its argument is the output of \<^verbatim>\<open>JSON.parse\<close> on text written by an
  external service. So values are modelled dynamically.

  A JavaScript number is an IEEE 754 double: a finite value (a real number), an infinity
  or NaN. A string is a list of characters; a \<^typ>\<open>char\<close> stands for the UTF-16 code
  unit of the same number, so strings with code units above 255 are outside the model.
  An object is the list of its own properties, looked up by name.
\<close>

datatype jsnum = Fin real | PosInf | NegInf | NaN

datatype jsval =
    JUndefined
  | JNull
  | JBool bool
  | JNum jsnum
  | JStr string
  | JArr "jsval list"
  | JObj "(string \<times> jsval) list"

text \<open>
  An error carries its message. The messages of the errors the engine throws differ from
  engine to engine; the model gives them in short.
\<close>

datatype js_error = TypeError string | SyntaxError string | Error string

text \<open>ToBoolean.\<close>

fun truthy :: "jsval \<Rightarrow> bool" where
  "truthy JUndefined = False"
| "truthy JNull = False"
| "truthy (JBool b) = b"
| "truthy (JNum (Fin r)) = (r \<noteq> 0)"
| "truthy (JNum NaN) = False"
| "truthy (JNum PosInf) = True"
| "truthy (JNum NegInf) = True"
| "truthy (JStr s) = (s \<noteq> [])"
| "truthy (JArr xs) = True"
| "truthy (JObj kvs) = True"

text \<open>
  Reading a named property \<^verbatim>\<open>v.k\<close> of a value that is neither null nor undefined.
  An object gives its own property; the names read in this program are not properties of
  any prototype, so every other value gives undefined. (On null and undefined the read
  throws; each caller below guards it.)
\<close>

fun getProp :: "jsval \<Rightarrow> string \<Rightarrow> jsval" where
  "getProp (JObj kvs) k = (case map_of kvs k of Some v \<Rightarrow> v | None \<Rightarrow> JUndefined)"
| "getProp v k = JUndefined"

text \<open>
  \<^verbatim>\<open>String.prototype.trim\<close> removes white space and line terminators from both ends.
  Below code unit 256 these are TAB, LF, VT, FF, CR, SP and NBSP.
\<close>

definition isWhiteSpace :: "char \<Rightarrow> bool" where
  "isWhiteSpace c = ((of_char c :: nat) \<in> {9, 10, 11, 12, 13, 32, 160})"

definition trim :: "string \<Rightarrow> string" where
  "trim s = rev (dropWhile isWhiteSpace (rev (dropWhile isWhiteSpace s)))"

text \<open>
  \<^verbatim>\<open>String.prototype.toLowerCase\<close> on code units below 256: A-Z and the Latin-1
  capitals (192-222 except the multiplication sign 215) move up by 32.
\<close>

definition toLowerCaseChar :: "char \<Rightarrow> char" where
  "toLowerCaseChar c =
     (let n = (of_char c :: nat)
      in if (65 \<le> n \<and> n \<le> 90) \<or> (192 \<le> n \<and> n \<le> 222 \<and> n \<noteq> 215)
         then char_of (n + 32) else c)"

definition toLowerCase :: "string \<Rightarrow> string" where
  "toLowerCase s = map toLowerCaseChar s"

text \<open>
  \<^verbatim>\<open>Math.round\<close>: the nearest integer, a tie going up. \<^verbatim>\<open>Math.max\<close> is
  \<^const>\<open>max\<close>. Both are exact.
\<close>

definition Math_round :: "real \<Rightarrow> real" where
  "Math_round x = of_int \<lfloor>x + 1 / 2\<rfloor>"

text \<open>
  Arithmetic on doubles rounds the exact result to a double. The rounding is the parameter
  \<open>rnd\<close> of everything that computes: \<open>rnd (a * b)\<close> is the product as JavaScript
  computes it, and a decimal literal such as \<^verbatim>\<open>0.6\<close> is \<open>rnd (6 / 10)\<close>. No
  operation below can overflow, since its operands are bounded by its finite input.

  \<^verbatim>\<open>Number(x.toFixed(2))\<close>: \<^verbatim>\<open>toFixed\<close> takes the integer \<open>n\<close> with \<open>n / 100\<close>
  nearest to the exact value of \<open>x\<close> (the larger one on a tie), on the absolute value
  when \<open>x\<close> is negative, and prints it with two decimals; from \<open>10^21\<close> on it prints
  \<open>x\<close> itself. \<^verbatim>\<open>Number\<close> reads the decimal back, rounding it to a double.
\<close>

definition toFixed2 :: "(real \<Rightarrow> real) \<Rightarrow> real \<Rightarrow> real" where
  "toFixed2 rnd x =
     (if 10 ^ 21 \<le> \<bar>x\<bar> then x
      else if x < 0 then rnd (- (of_int \<lfloor>100 * (- x) + 1 / 2\<rfloor> / 100))
      else rnd (of_int \<lfloor>100 * x + 1 / 2\<rfloor> / 100))"

section \<open>The scoring rubric (scoreChiveAnalysis)\<close>

record ScoredChiveMetrics =
  thicknessConsistencyScore :: "real option"
  cutQualityScore :: "real option"
  overallScore :: "real option"
  notes' :: string

text \<open>\<^verbatim>\<open>const regionList = Array.isArray(regions) ? regions : [];\<close>\<close>

definition regionList :: "jsval \<Rightarrow> jsval list" where
  "regionList regions = (case regions of JArr rs \<Rightarrow> rs | _ \<Rightarrow> [])"

text \<open>
  The filter's predicate:
  \<^verbatim>\<open>r && typeof r.regionCutQualityLabel === 'string' && r.regionCutQualityLabel !== 'no_chives'\<close>
\<close>

definition hasChives :: "jsval \<Rightarrow> bool" where
  "hasChives r =
     (truthy r \<and>
      (case getProp r ''regionCutQualityLabel'' of
         JStr l \<Rightarrow> l \<noteq> ''no_chives''
       | _ \<Rightarrow> False))"

definition regionsWithChives :: "jsval \<Rightarrow> jsval list" where
  "regionsWithChives regions = filter hasChives (regionList regions)"

text \<open>
  The test \<^verbatim>\<open>rawNotes && rawNotes.trim().length\<close>, which the rubric makes twice. It
  gives the notes when they are a string with something but white space in it, and nothing
  when \<open>rawNotes\<close> is falsy or blank. A truthy value that is not a string has no
  \<^verbatim>\<open>trim\<close> method, and calling it throws.
\<close>

definition notesText :: "jsval \<Rightarrow> js_error + string option" where
  "notesText rawNotes =
     (if \<not> truthy rawNotes then Inr None
      else case rawNotes of
             JStr s \<Rightarrow> Inr (if length (trim s) \<noteq> 0 then Some s else None)
           | _ \<Rightarrow> Inl (TypeError ''rawNotes.trim is not a function''))"

text \<open>
  Anti-cheat 3:
  \<^verbatim>\<open>typeof averageThicknessMm === 'number' && (averageThicknessMm <= 0 || averageThicknessMm > 5)\<close>.
  A comparison with NaN is false.
\<close>

definition implausibleThickness :: "jsval \<Rightarrow> bool" where
  "implausibleThickness averageThicknessMm =
     (case averageThicknessMm of
        JNum (Fin a) \<Rightarrow> a \<le> 0 \<or> 5 < a
      | JNum PosInf \<Rightarrow> True
      | JNum NegInf \<Rightarrow> True
      | _ \<Rightarrow> False)"

text \<open>
  \<^verbatim>\<open>if (typeof thicknessStdDevMm === 'number' && Number.isFinite(thicknessStdDevMm)) {
    const normalized = Math.max(0, 1 - thicknessStdDevMm / 1.5);
    thicknessConsistencyScore = Number(normalized.toFixed(2)); }\<close>
\<close>

definition thicknessConsistency :: "(real \<Rightarrow> real) \<Rightarrow> jsval \<Rightarrow> real option" where
  "thicknessConsistency rnd thicknessStdDevMm =
     (case thicknessStdDevMm of
        JNum (Fin s) \<Rightarrow>
          (let normalized = max 0 (rnd (1 - rnd (s / (3 / 2))))
           in Some (toFixed2 rnd normalized))
      | _ \<Rightarrow> None)"

text \<open>The label's score: clean 1.0, mixed 0.7, ragged 0.35, any other string 0.5.\<close>

definition cutQuality :: "(real \<Rightarrow> real) \<Rightarrow> jsval \<Rightarrow> real option" where
  "cutQuality rnd cutQualityLabel =
     (case cutQualityLabel of
        JStr l \<Rightarrow>
          (let label = toLowerCase l
           in if label = ''clean'' then Some 1
              else if label = ''mixed'' then Some (rnd (7 / 10))
              else if label = ''ragged'' then Some (rnd (35 / 100))
              else Some (1 / 2))
      | _ \<Rightarrow> None)"

text \<open>
  \<^verbatim>\<open>const consistency = thicknessConsistencyScore ?? 0.5;
  const quality = cutQualityScore ?? 0.5;
  const overallScore = Math.round((consistency * 0.6 + quality * 0.4) * 100);\<close>
\<close>

definition overall :: "(real \<Rightarrow> real) \<Rightarrow> real option \<Rightarrow> real option \<Rightarrow> real" where
  "overall rnd tcs cqs =
     (let consistency = (case tcs of Some v \<Rightarrow> v | None \<Rightarrow> 1 / 2);
          quality = (case cqs of Some v \<Rightarrow> v | None \<Rightarrow> 1 / 2)
      in Math_round
           (rnd (rnd (rnd (consistency * rnd (6 / 10)) + rnd (quality * rnd (4 / 10))) * 100)))"

definition allNull :: "string \<Rightarrow> ScoredChiveMetrics" where
  "allNull n =
     \<lparr>thicknessConsistencyScore = None, cutQualityScore = None, overallScore = None,
      notes' = n\<rparr>"

text \<open>
  The function. Destructuring its argument throws when the argument is null or undefined;
  every other value has the five properties, undefined where it lacks one.
\<close>

definition scoreChiveAnalysis :: "(real \<Rightarrow> real) \<Rightarrow> jsval \<Rightarrow> js_error + ScoredChiveMetrics" where
  "scoreChiveAnalysis rnd base =
     (if base = JUndefined \<or> base = JNull
      then Inl (TypeError ''Cannot destructure base'')
      else
        let averageThicknessMm = getProp base ''averageThicknessMm'';
            thicknessStdDevMm = getProp base ''thicknessStdDevMm'';
            cutQualityLabel = getProp base ''cutQualityLabel'';
            rawNotes = getProp base ''rawNotes'';
            regions = getProp base ''regions'';
            n = length (regionsWithChives regions)
        in
          if n = 0 then
            (case notesText rawNotes of
               Inl e \<Rightarrow> Inl e
             | Inr (Some s) \<Rightarrow>
                 Inr (allNull (s @ '' (No regions with chives detected; score not computed.)''))
             | Inr None \<Rightarrow>
                 Inr (allNull ''No regions with chives detected; score not computed.''))
          else if n = 1 then
            Inr (allNull
              ''Insufficient chive coverage (only one region contains chives); score not computed.'')
          else if implausibleThickness averageThicknessMm then
            Inr (allNull
              ''Model reported an implausible average thickness for chives; score not computed.'')
          else
            let tcs = thicknessConsistency rnd thicknessStdDevMm;
                cqs = cutQuality rnd cutQualityLabel;
                ov = overall rnd tcs cqs
            in
              (case notesText rawNotes of
                 Inl e \<Rightarrow> Inl e
               | Inr t \<Rightarrow>
                   Inr \<lparr>thicknessConsistencyScore = tcs, cutQualityScore = cqs,
                        overallScore = Some ov,
                        notes' = (case t of
                                   Some s \<Rightarrow> s
                                 | None \<Rightarrow>
                                     ''Scored based on thickness uniformity and cleanliness of cuts.'')\<rparr>))"

section \<open>The store, the queue and the job records\<close>

text \<open>
  Redis holds two kinds of keys, \<^verbatim>\<open>analysis:jobs:<jobId>\<close> and
  \<^verbatim>\<open>analysis:results:<jobId>\<close>, and the list \<^verbatim>\<open>analysis:queue\<close>. No key of one
  kind is a key of the other, so the store is two maps from the job id. A value is stored
  as its JSON text and parsed when read; the model stores the value. A store or queue
  operation is atomic and does not fail.

  Every key is written with one hour to live (\<^verbatim>\<open>EX: 3600\<close> in the worker, an
  \<^verbatim>\<open>expiration\<close> one hour ahead in the handler), and the store drops a key that has not
  been written again when its hour is over: \<open>expire_job\<close> for the record of a job. An
  entry of the queue has no such limit.

  \<open>ops\<close> is the history of the state: the writes to the store and the pushes and pops
  of the queue, the oldest first.
\<close>

datatype status = Pending | Completed | Failed

record Job =
  jobId :: string
  imageUrl :: string
  mimeType :: string
  submittedBy :: string
  subreddit :: string
  postId :: string
  createdAt :: nat
  status :: status

text \<open>
  What the worker writes under \<^verbatim>\<open>analysis:results:<jobId>\<close>:
  \<^verbatim>\<open>{jobId, status: 'completed', result, processedAt}\<close> or
  \<^verbatim>\<open>{jobId, status: 'failed', error, processedAt}\<close>. The \<open>result\<close> is the parsed
  JSON object, which the model holds as its text.
\<close>

datatype Result =
    CompletedResult string string nat
  | FailedResult string string nat

fun resultStatus :: "Result \<Rightarrow> status" where
  "resultStatus (CompletedResult jid result processedAt) = Completed"
| "resultStatus (FailedResult jid err processedAt) = Failed"

datatype op = SetJob string Job | SetResult string Result | RPush Job | BLPop Job

record sys =
  jobs :: "string \<rightharpoonup> Job"
  results :: "string \<rightharpoonup> Result"
  queue :: "Job list"
  ops :: "op list"

definition redis_set_job :: "string \<Rightarrow> Job \<Rightarrow> sys \<Rightarrow> sys" where
  "redis_set_job jid job s = s\<lparr>jobs := (jobs s)(jid \<mapsto> job), ops := ops s @ [SetJob jid job]\<rparr>"

definition redis_set_result :: "string \<Rightarrow> Result \<Rightarrow> sys \<Rightarrow> sys" where
  "redis_set_result jid r s =
     s\<lparr>results := (results s)(jid \<mapsto> r), ops := ops s @ [SetResult jid r]\<rparr>"

definition redis_rPush :: "Job \<Rightarrow> sys \<Rightarrow> sys" where
  "redis_rPush job s = s\<lparr>queue := queue s @ [job], ops := ops s @ [RPush job]\<rparr>"

text \<open>\<^verbatim>\<open>blPop\<close> gives nothing when the queue stays empty for five seconds.\<close>

definition redis_blPop :: "sys \<Rightarrow> Job option \<times> sys" where
  "redis_blPop s =
     (case queue s of
        [] \<Rightarrow> (None, s)
      | job # rest \<Rightarrow> (Some job, s\<lparr>queue := rest, ops := ops s @ [BLPop job]\<rparr>))"


section \<open>The submission service (POST /api/analyze-async)\<close>

text \<open>
  The request context of the platform; \<^verbatim>\<open>context.userId || 'anonymous'\<close> takes the
  default when the field is missing or empty.
\<close>

record Context =
  userId :: "string option"
  subredditName :: "string option"
  contextPostId :: "string option"

definition orDefault :: "string option \<Rightarrow> string \<Rightarrow> string" where
  "orDefault v d = (case v of None \<Rightarrow> d | Some x \<Rightarrow> if x = [] then d else x)"

text \<open>
  One uploaded image, with what the outside world answers while the handler works on it:
  the identifier \<^verbatim>\<open>crypto.randomUUID()\<close> returns, the outcome of
  \<^verbatim>\<open>reddit.uploadMedia\<close> (the media URL, or the message of the error it throws) and the
  time \<^verbatim>\<open>Date.now()\<close> shows.
\<close>

datatype uploaded = MediaUrl string | UploadThrows string

record Upload =
  buffer :: string
  mimetype :: string
  uuid :: string
  media :: uploaded
  submittedAt :: nat

definition newJob :: "Context \<Rightarrow> Upload \<Rightarrow> string \<Rightarrow> Job" where
  "newJob ctx u mediaUrl =
     \<lparr>jobId = uuid u,
      imageUrl = mediaUrl,
      mimeType = mimetype u,
      submittedBy = orDefault (userId ctx) ''anonymous'',
      subreddit = orDefault (subredditName ctx) ''unknown'',
      postId = orDefault (contextPostId ctx) [],
      createdAt = submittedAt u,
      status = Pending\<rparr>"

text \<open>
  The loop over the files, with the list \<open>acc\<close> of the job ids pushed so far. An error
  thrown in the loop leaves it at once, for the handler's \<^verbatim>\<open>catch\<close>.
\<close>

fun submitImages :: "Context \<Rightarrow> Upload list \<Rightarrow> string list \<Rightarrow> sys \<Rightarrow> (string + string list) \<times> sys" where
  "submitImages ctx [] acc s = (Inr acc, s)"
| "submitImages ctx (u # us) acc s =
     (case media u of
        UploadThrows msg \<Rightarrow> (Inl msg, s)
      | MediaUrl mediaUrl \<Rightarrow>
          let job = newJob ctx u mediaUrl;
              s1 = redis_set_job (jobId job) job s;
              s2 = redis_rPush job s1
          in submitImages ctx us (acc @ [jobId job]) s2)"

datatype response = Json200 "string list" | Json500 string

definition analyze_async :: "Context \<Rightarrow> Upload list \<Rightarrow> sys \<Rightarrow> response \<times> sys" where
  "analyze_async ctx files s =
     (case submitImages ctx files [] s of
        (Inr jobIds, s') \<Rightarrow> (Json200 jobIds, s')
      | (Inl msg, s') \<Rightarrow> (Json500 msg, s'))"

section \<open>JSON texts\<close>

text \<open>
  \<^verbatim>\<open>JSON.parse\<close> belongs to the JavaScript engine. It throws a SyntaxError unless its
  argument is a JSON text: one value (an object, an array, a string, a number,
  \<open>true\<close>, \<open>false\<close> or \<open>null\<close>) with white space (space, TAB, LF, CR) around its
  tokens. The recogniser reads the text one character at a time, with the objects and
  arrays it is inside of on a stack. \<open>CHR 0x22\<close> is the double quote, \<open>CHR 0x5C\<close> the
  backslash.
\<close>

datatype jctx = InArr | InObj

datatype jmode =
    Val
  | ValOrEnd
  | KeyOrEnd
  | Key
  | Colon
  | After
  | Str bool
  | Esc bool
  | Hex bool nat
  | NumMinus
  | NumZero
  | NumInt
  | NumDot
  | NumFrac
  | NumExp
  | NumExpSign
  | NumExpDigits
  | Lit string

definition isJsonSpace :: "char \<Rightarrow> bool" where
  "isJsonSpace c = (c \<in> {CHR 0x20, CHR 0x09, CHR 0x0A, CHR 0x0D})"

definition isDigit :: "char \<Rightarrow> bool" where
  "isDigit c = (c \<in> set ''0123456789'')"

definition isHexDigit :: "char \<Rightarrow> bool" where
  "isHexDigit c = (c \<in> set ''0123456789abcdefABCDEF'')"

text \<open>After a value: white space, a comma, or the end of the enclosing array or object.\<close>

definition afterValue :: "jctx list \<Rightarrow> char \<Rightarrow> (jmode \<times> jctx list) option" where
  "afterValue stack c =
     (if isJsonSpace c then Some (After, stack)
      else if c = CHR '','' then
        (case stack of
           [] \<Rightarrow> None
         | InArr # rest \<Rightarrow> Some (Val, stack)
         | InObj # rest \<Rightarrow> Some (Key, stack))
      else if c = CHR '']'' then
        (case stack of InArr # rest \<Rightarrow> Some (After, rest) | _ \<Rightarrow> None)
      else if c = CHR ''}'' then
        (case stack of InObj # rest \<Rightarrow> Some (After, rest) | _ \<Rightarrow> None)
      else None)"

text \<open>The first character of a value.\<close>

definition startValue :: "jctx list \<Rightarrow> char \<Rightarrow> (jmode \<times> jctx list) option" where
  "startValue stack c =
     (if c = CHR ''{'' then Some (KeyOrEnd, InObj # stack)
      else if c = CHR ''['' then Some (ValOrEnd, InArr # stack)
      else if c = CHR 0x22 then Some (Str False, stack)
      else if c = CHR ''-'' then Some (NumMinus, stack)
      else if c = CHR ''0'' then Some (NumZero, stack)
      else if isDigit c then Some (NumInt, stack)
      else if c = CHR ''t'' then Some (Lit ''rue'', stack)
      else if c = CHR ''f'' then Some (Lit ''alse'', stack)
      else if c = CHR ''n'' then Some (Lit ''ull'', stack)
      else None)"

fun jstep :: "jmode \<Rightarrow> jctx list \<Rightarrow> char \<Rightarrow> (jmode \<times> jctx list) option" where
  "jstep Val stack c = (if isJsonSpace c then Some (Val, stack) else startValue stack c)"
| "jstep ValOrEnd stack c =
     (if isJsonSpace c then Some (ValOrEnd, stack)
      else if c = CHR '']'' then Some (After, tl stack)
      else startValue stack c)"
| "jstep KeyOrEnd stack c =
     (if isJsonSpace c then Some (KeyOrEnd, stack)
      else if c = CHR ''}'' then Some (After, tl stack)
      else if c = CHR 0x22 then Some (Str True, stack)
      else None)"
| "jstep Key stack c =
     (if isJsonSpace c then Some (Key, stack)
      else if c = CHR 0x22 then Some (Str True, stack)
      else None)"
| "jstep Colon stack c =
     (if isJsonSpace c then Some (Colon, stack)
      else if c = CHR '':'' then Some (Val, stack)
      else None)"
| "jstep After stack c = afterValue stack c"
| "jstep (Str k) stack c =
     (if c = CHR 0x22 then Some (if k then Colon else After, stack)
      else if c = CHR 0x5C then Some (Esc k, stack)
      else if (of_char c :: nat) < 32 then None
      else Some (Str k, stack))"
| "jstep (Esc k) stack c =
     (if c \<in> {CHR 0x22, CHR 0x5C, CHR ''/'', CHR ''b'', CHR ''f'', CHR ''n'', CHR ''r'', CHR ''t''}
      then Some (Str k, stack)
      else if c = CHR ''u'' then Some (Hex k 4, stack)
      else None)"
| "jstep (Hex k n) stack c =
     (if isHexDigit c then Some (if n \<le> 1 then Str k else Hex k (n - 1), stack) else None)"
| "jstep NumMinus stack c =
     (if c = CHR ''0'' then Some (NumZero, stack)
      else if isDigit c then Some (NumInt, stack)
      else None)"
| "jstep NumZero stack c =
     (if c = CHR ''.'' then Some (NumDot, stack)
      else if c = CHR ''e'' \<or> c = CHR ''E'' then Some (NumExp, stack)
      else afterValue stack c)"
| "jstep NumInt stack c =
     (if isDigit c then Some (NumInt, stack)
      else if c = CHR ''.'' then Some (NumDot, stack)
      else if c = CHR ''e'' \<or> c = CHR ''E'' then Some (NumExp, stack)
      else afterValue stack c)"
| "jstep NumDot stack c = (if isDigit c then Some (NumFrac, stack) else None)"
| "jstep NumFrac stack c =
     (if isDigit c then Some (NumFrac, stack)
      else if c = CHR ''e'' \<or> c = CHR ''E'' then Some (NumExp, stack)
      else afterValue stack c)"
| "jstep NumExp stack c =
     (if c = CHR ''+'' \<or> c = CHR ''-'' then Some (NumExpSign, stack)
      else if isDigit c then Some (NumExpDigits, stack)
      else None)"
| "jstep NumExpSign stack c = (if isDigit c then Some (NumExpDigits, stack) else None)"
| "jstep NumExpDigits stack c = (if isDigit c then Some (NumExpDigits, stack) else afterValue stack c)"
| "jstep (Lit []) stack c = None"
| "jstep (Lit (x # xs)) stack c =
     (if c = x then Some (if xs = [] then After else Lit xs, stack) else None)"

fun jrun :: "jmode \<Rightarrow> jctx list \<Rightarrow> string \<Rightarrow> (jmode \<times> jctx list) option" where
  "jrun m stack [] = Some (m, stack)"
| "jrun m stack (c # cs) =
     (case jstep m stack c of None \<Rightarrow> None | Some (m', stack') \<Rightarrow> jrun m' stack' cs)"

text \<open>
  The text is a JSON text when the run ends after a complete value (a number is complete
  where its digits may stop) outside every array and object.
\<close>

definition JSON_wellformed :: "string \<Rightarrow> bool" where
  "JSON_wellformed text =
     (case jrun Val [] text of
        Some (m, []) \<Rightarrow> m \<in> {After, NumZero, NumInt, NumFrac, NumExpDigits}
      | _ \<Rightarrow> False)"

section \<open>The worker (processJob, pollQueue)\<close>

text \<open>
  What the outside world answers while the worker processes one job: the image fetch
  (it throws, or answers with a status that is not ok, or gives the bytes), the call of the
  analysis service (it throws, or answers not ok with a status and a text, or its body is
  not JSON, or it gives the value at \<^verbatim>\<open>data?.choices?.[0]?.message?.content\<close>,
  undefined when the path does not exist), the message the engine gives a SyntaxError of
  \<^verbatim>\<open>JSON.parse\<close>, and the clock at the two places that read it.
\<close>

datatype fetchOutcome = FetchThrows string | FetchNotOk string | FetchOk string

datatype apiOutcome =
    ApiThrows string
  | ApiNotOk string string
  | ApiBodyThrows string
  | ApiContent jsval

record WorkerEnv =
  fetched :: fetchOutcome
  reply :: apiOutcome
  syntaxMessage :: string
  clock :: nat
  clockCatch :: nat

text \<open>
  \<^verbatim>\<open>content.match(/\{[\s\S]*\}/)\<close>: the match starts at the first \<open>{\<close> and, the star
  being greedy, ends at the last \<open>}\<close> after it; there is none when no \<open>}\<close> follows
  the first \<open>{\<close>.
\<close>

definition matchBraces :: "string \<Rightarrow> string option" where
  "matchBraces text =
     (case dropWhile (\<lambda>c. c \<noteq> CHR ''{'') text of
        [] \<Rightarrow> None
      | b # rest \<Rightarrow>
          (case dropWhile (\<lambda>c. c \<noteq> CHR ''}'') (rev rest) of
             [] \<Rightarrow> None
           | tailRev \<Rightarrow> Some (b # rev tailRev)))"

text \<open>
  Lines 97 to 107 of the worker: the content must be truthy; \<^verbatim>\<open>match\<close> is a method of
  strings only; the match is parsed. The value is the error's message, or the parsed
  object (its text).
\<close>

definition parseContent :: "WorkerEnv \<Rightarrow> jsval \<Rightarrow> string + string" where
  "parseContent env content =
     (if \<not> truthy content then Inl ''No content returned from X.AI API''
      else case content of
             JStr text \<Rightarrow>
               (case matchBraces text of
                  None \<Rightarrow> Inl ''No JSON object found in response''
                | Some m \<Rightarrow> if JSON_wellformed m then Inr m else Inl (syntaxMessage env))
           | _ \<Rightarrow> Inl ''content.match is not a function'')"

text \<open>
  The body of the \<^verbatim>\<open>try\<close> up to the parsed result (lines 28 to 107): the message of
  the first error thrown, or the result.
\<close>

definition analyse :: "WorkerEnv \<Rightarrow> Job \<Rightarrow> string + string" where
  "analyse env job =
     (case fetched env of
        FetchThrows msg \<Rightarrow> Inl msg
      | FetchNotOk statusText \<Rightarrow> Inl (''Failed to fetch image: '' @ statusText)
      | FetchOk bytes \<Rightarrow>
          (case reply env of
             ApiThrows msg \<Rightarrow> Inl msg
           | ApiNotOk code errorText \<Rightarrow> Inl (''X.AI API error: '' @ code @ '' - '' @ errorText)
           | ApiBodyThrows msg \<Rightarrow> Inl msg
           | ApiContent content \<Rightarrow> parseContent env content))"

text \<open>
  The \<^verbatim>\<open>catch\<close> block: store the failed result, then read the job, set its status and
  store it. \<^verbatim>\<open>redis.get\<close> gives null for a key that is not there,
  \<^verbatim>\<open>JSON.parse(null)\<close> is null, and the assignment to \<^verbatim>\<open>job.status\<close> then throws a
  TypeError, which leaves \<open>processJob\<close>.
\<close>

definition catchBlock :: "WorkerEnv \<Rightarrow> Job \<Rightarrow> string \<Rightarrow> sys \<Rightarrow> (js_error + unit) \<times> sys" where
  "catchBlock env job msg s =
     (let s1 = redis_set_result (jobId job) (FailedResult (jobId job) msg (clockCatch env)) s
      in case jobs s1 (jobId job) of
           None \<Rightarrow> (Inl (TypeError ''Cannot set properties of null''), s1)
         | Some stored \<Rightarrow>
             (Inr (), redis_set_job (jobId job) (stored\<lparr>status := Failed\<rparr>) s1))"

definition processJob :: "WorkerEnv \<Rightarrow> Job \<Rightarrow> sys \<Rightarrow> (js_error + unit) \<times> sys" where
  "processJob env job s =
     (case analyse env job of
        Inl msg \<Rightarrow> catchBlock env job msg s
      | Inr result \<Rightarrow>
          let s1 = redis_set_result (jobId job) (CompletedResult (jobId job) result (clock env)) s
          in case jobs s1 (jobId job) of
               None \<Rightarrow> catchBlock env job ''Cannot set properties of null'' s1
             | Some stored \<Rightarrow>
                 (Inr (), redis_set_job (jobId job) (stored\<lparr>status := Completed\<rparr>) s1))"

text \<open>
  One turn of the loop of \<open>pollQueue\<close>: pop, and process what was popped. An error that
  leaves \<open>processJob\<close> is logged, and the loop goes on after two seconds.
\<close>

definition pollQueue_turn :: "WorkerEnv \<Rightarrow> sys \<Rightarrow> sys" where
  "pollQueue_turn env s =
     (case redis_blPop s of
        (None, s') \<Rightarrow> s'
      | (Some job, s') \<Rightarrow> snd (processJob env job s'))"

section \<open>The steps of the system\<close>

text \<open>
  The handler, for any number of requests, and the one worker run beside each other, and
  between two operations on the store or the queue of one the other may run. A
  configuration is the shared state with what each of them holds between its operations:
  the jobs a handler has recorded and is about to push, and the job the worker has popped. The worker is idle, or holds a popped
  job up to the write of its result, or has written the result and is about to set the
  status of the job record.
\<close>

datatype wstate = Idle | Holding Job | Updating Job status

record config =
  shared :: sys
  submitting :: "Job list"
  worker :: wstate

definition initial :: config where
  "initial =
     \<lparr>shared = \<lparr>jobs = Map.empty, results = Map.empty, queue = [], ops = []\<rparr>,
      submitting = [], worker = Idle\<rparr>"

text \<open>
  One step is one operation. \<open>record_job\<close> and \<open>push_job\<close> are the two operations of
  the handler for one image, the identifier being fresh; \<open>pop_job\<close>, \<open>write_result\<close>
  and \<open>update_job\<close> are those of the worker for one job, \<open>write_result\<close> after the
  analysis of any outcome. The last two rules are the worker's when the job record is not
  there. The expiry of a key is not among the steps.
\<close>

inductive step :: "config \<Rightarrow> config \<Rightarrow> bool" where
  record_job:
    "jobs (shared c) (uuid u) = None \<Longrightarrow> results (shared c) (uuid u) = None \<Longrightarrow>
     job = newJob ctx u mediaUrl \<Longrightarrow>
     step c (c\<lparr>shared := redis_set_job (jobId job) job (shared c),
                submitting := job # submitting c\<rparr>)"
| push_job:
    "job \<in> set (submitting c) \<Longrightarrow>
     step c (c\<lparr>shared := redis_rPush job (shared c),
                submitting := remove1 job (submitting c)\<rparr>)"
| pop_job:
    "worker c = Idle \<Longrightarrow> redis_blPop (shared c) = (Some job, s') \<Longrightarrow>
     step c (c\<lparr>shared := s', worker := Holding job\<rparr>)"
| write_result:
    "worker c = Holding job \<Longrightarrow>
     r = (case analyse env job of
            Inr result \<Rightarrow> CompletedResult (jobId job) result (clock env)
          | Inl msg \<Rightarrow> FailedResult (jobId job) msg (clockCatch env)) \<Longrightarrow>
     step c (c\<lparr>shared := redis_set_result (jobId job) r (shared c),
                worker := Updating job (resultStatus r)\<rparr>)"
| update_job:
    "worker c = Updating job st \<Longrightarrow> jobs (shared c) (jobId job) = Some stored \<Longrightarrow>
     step c (c\<lparr>shared := redis_set_job (jobId job) (stored\<lparr>status := st\<rparr>) (shared c),
                worker := Idle\<rparr>)"
| update_missing_try:
    "worker c = Updating job Completed \<Longrightarrow> jobs (shared c) (jobId job) = None \<Longrightarrow>
     step c (c\<lparr>shared := redis_set_result (jobId job)
                  (FailedResult (jobId job) ''Cannot set properties of null''
                     (clockCatch (env :: WorkerEnv)))
                  (shared c),
                worker := Updating job Failed\<rparr>)"
| update_missing_catch:
    "worker c = Updating job Failed \<Longrightarrow> jobs (shared c) (jobId job) = None \<Longrightarrow>
     step c (c\<lparr>worker := Idle\<rparr>)"

definition reachable :: "config \<Rightarrow> bool" where
  "reachable c = step\<^sup>*\<^sup>* initial c"

section \<open>The terms of the specification\<close>

text \<open>
  An active region, in the specification's words: a region whose
  \<open>regionCutQualityLabel\<close> is not \<open>no_chives\<close>.
\<close>

definition activeRegions :: "jsval \<Rightarrow> jsval list" where
  "activeRegions regions =
     filter (\<lambda>r. getProp r ''regionCutQualityLabel'' \<noteq> JStr ''no_chives'') (regionList regions)"

text \<open>
  A number lies outside the interval \<open>(0, 5]\<close>. NaN is no measurement: it lies neither
  inside nor outside.
\<close>

fun outsideRange :: "jsnum \<Rightarrow> bool" where
  "outsideRange (Fin a) = (a \<notin> {0<..5})"
| "outsideRange PosInf = True"
| "outsideRange NegInf = True"
| "outsideRange NaN = False"

text \<open>The average thickness is absent, or a number in \<open>(0, 5]\<close>.\<close>

fun plausibleAverage :: "jsval \<Rightarrow> bool" where
  "plausibleAverage JUndefined = True"
| "plausibleAverage JNull = True"
| "plausibleAverage (JNum (Fin a)) = (a \<in> {0<..5})"
| "plausibleAverage v = False"

text \<open>
  \<open>rawNotes\<close> as RawMetrics has it: free text, or absent (undefined, or JSON's null).
\<close>

fun freeText :: "jsval \<Rightarrow> bool" where
  "freeText JUndefined = True"
| "freeText JNull = True"
| "freeText (JStr s) = True"
| "freeText v = False"

text \<open>
  What the theorems on the computed scores ask of the rounding: it is monotone, it leaves
  the doubles 0, 1/2 and 1 as they are, and between 1/4 and 128 its relative error is at
  most one in a thousand. Rounding to the nearest double has all three (its relative error
  there is at most \<open>2^-53\<close>); so has no rounding at all.
\<close>

definition roundsLikeDouble :: "(real \<Rightarrow> real) \<Rightarrow> bool" where
  "roundsLikeDouble rnd \<longleftrightarrow>
     (\<forall>x y. x \<le> y \<longrightarrow> rnd x \<le> rnd y) \<and>
     rnd 0 = 0 \<and> rnd (1 / 2) = 1 / 2 \<and> rnd 1 = 1 \<and>
     (\<forall>x. 1 / 4 \<le> x \<and> x \<le> 128 \<longrightarrow> \<bar>rnd x - x\<bar> \<le> x / 1000)"

text \<open>For the submission: an upload succeeded; the job made of it; the first failure.\<close>

definition uploadOk :: "Upload \<Rightarrow> bool" where
  "uploadOk u = (case media u of MediaUrl mediaUrl \<Rightarrow> True | UploadThrows msg \<Rightarrow> False)"

definition jobOf :: "Context \<Rightarrow> Upload \<Rightarrow> Job" where
  "jobOf ctx u =
     newJob ctx u (case media u of MediaUrl mediaUrl \<Rightarrow> mediaUrl | UploadThrows msg \<Rightarrow> [])"

fun firstFailure :: "Upload list \<Rightarrow> string option" where
  "firstFailure [] = None"
| "firstFailure (u # us) =
     (case media u of UploadThrows msg \<Rightarrow> Some msg | MediaUrl mediaUrl \<Rightarrow> firstFailure us)"

text \<open>A request is rejected when its answer is an error.\<close>

fun rejected :: "response \<Rightarrow> bool" where
  "rejected (Json500 msg) = True"
| "rejected (Json200 jobIds) = False"

text \<open>
  For the examples: an empty store and queue, a request context, two uploads with the jobs
  made of them, and a store and queue that hold an earlier job.
\<close>

definition emptySys :: sys where
  "emptySys = \<lparr>jobs = Map.empty, results = Map.empty, queue = [], ops = []\<rparr>"

definition someContext :: Context where
  "someContext = \<lparr>userId = Some ''t2_u1'', subredditName = None, contextPostId = Some ''t3_p1''\<rparr>"

definition upload1 :: Upload where
  "upload1 = \<lparr>buffer = ''PNG1'', mimetype = ''image/png'', uuid = ''id-1'',
              media = MediaUrl ''https://i.redd.it/1.png'', submittedAt = 1000\<rparr>"

definition upload2 :: Upload where
  "upload2 = \<lparr>buffer = ''JPG2'', mimetype = ''image/jpeg'', uuid = ''id-2'',
              media = MediaUrl ''https://i.redd.it/2.jpg'', submittedAt = 1001\<rparr>"

definition job1 :: Job where
  "job1 = \<lparr>jobId = ''id-1'', imageUrl = ''https://i.redd.it/1.png'', mimeType = ''image/png'',
           submittedBy = ''t2_u1'', subreddit = ''unknown'', postId = ''t3_p1'',
           createdAt = 1000, status = Pending\<rparr>"

definition job2 :: Job where
  "job2 = \<lparr>jobId = ''id-2'', imageUrl = ''https://i.redd.it/2.jpg'', mimeType = ''image/jpeg'',
           submittedBy = ''t2_u1'', subreddit = ''unknown'', postId = ''t3_p1'',
           createdAt = 1001, status = Pending\<rparr>"

definition job0 :: Job where
  "job0 = \<lparr>jobId = ''id-0'', imageUrl = ''https://i.redd.it/0.png'', mimeType = ''image/png'',
           submittedBy = ''anonymous'', subreddit = ''chives'', postId = [],
           createdAt = 900, status = Pending\<rparr>"

definition busySys :: sys where
  "busySys = \<lparr>jobs = [''id-0'' \<mapsto> job0], results = Map.empty, queue = [job0],
              ops = [SetJob ''id-0'' job0, RPush job0]\<rparr>"

text \<open>
  The part of a text from its first \<open>{\<close> to its last \<open>}\<close>: nothing before it has a
  \<open>{\<close>, nothing after it a \<open>}\<close>.
\<close>

definition bracedSpan :: "string \<Rightarrow> string \<Rightarrow> bool" where
  "bracedSpan text m \<longleftrightarrow>
     (\<exists>pre post. text = pre @ m @ post \<and> CHR ''{'' \<notin> set pre \<and> CHR ''}'' \<notin> set post \<and>
        2 \<le> length m \<and> hd m = CHR ''{'' \<and> last m = CHR ''}'')"

text \<open>
  The jobs in flight: recorded and not yet pushed, in the queue, or popped and not yet
  answered. The invariant of the steps: the jobs in flight have different identifiers, a
  pending record each and no result; while the worker is between its two writes for a job,
  the record is pending and the result is there; a result has a job record, of the same
  status unless the worker is between its two writes for it; a record that is not pending
  has a result of its status.
\<close>

definition tracked :: "config \<Rightarrow> Job list" where
  "tracked c =
     submitting c @ queue (shared c) @ (case worker c of Holding job \<Rightarrow> [job] | _ \<Rightarrow> [])"

definition invariant :: "config \<Rightarrow> bool" where
  "invariant c \<longleftrightarrow>
     distinct (map jobId (tracked c)) \<and>
     (\<forall>job\<in>set (tracked c).
        (\<exists>stored. jobs (shared c) (jobId job) = Some stored \<and> status stored = Pending) \<and>
        results (shared c) (jobId job) = None) \<and>
     (\<forall>job st. worker c = Updating job st \<longrightarrow>
        (\<exists>stored r. jobs (shared c) (jobId job) = Some stored \<and> status stored = Pending \<and>
           results (shared c) (jobId job) = Some r \<and> resultStatus r = st)) \<and>
     (\<forall>jid r. results (shared c) jid = Some r \<longrightarrow>
        (\<exists>stored. jobs (shared c) jid = Some stored \<and>
           (status stored = resultStatus r \<or>
            status stored = Pending \<and>
            (\<exists>job. worker c = Updating job (resultStatus r) \<and> jobId job = jid)))) \<and>
     (\<forall>jid stored. jobs (shared c) jid = Some stored \<longrightarrow> status stored \<noteq> Pending \<longrightarrow>
        (\<exists>r. results (shared c) jid = Some r \<and> resultStatus r = status stored))"

text \<open>
  For the examples: the answers to the worker (a reply with prose around the object
  \<open>{}\<close>, an image fetch that throws, or any reply), and three configurations on the way
  of one job: popped, result written, job record updated.
\<close>

definition workerEnv1 :: WorkerEnv where
  "workerEnv1 =
     \<lparr>fetched = FetchOk ''PNG1'', reply = ApiContent (JStr ''Here you go: {} Thanks''),
      syntaxMessage = ''Unexpected token'', clock = 2000, clockCatch = 2001\<rparr>"


definition poppedConfig :: config where
  "poppedConfig =
     \<lparr>shared = \<lparr>jobs = [''id-1'' \<mapsto> job1], results = Map.empty, queue = [],
                ops = [SetJob ''id-1'' job1, RPush job1, BLPop job1]\<rparr>,
      submitting = [], worker = Holding job1\<rparr>"

definition windowConfig :: config where
  "windowConfig =
     \<lparr>shared = \<lparr>jobs = [''id-1'' \<mapsto> job1],
                results = [''id-1'' \<mapsto> CompletedResult ''id-1'' ''{}'' 2000],
                queue = [],
                ops = [SetJob ''id-1'' job1, RPush job1, BLPop job1,
                       SetResult ''id-1'' (CompletedResult ''id-1'' ''{}'' 2000)]\<rparr>,
      submitting = [], worker = Updating job1 Completed\<rparr>"

definition doneConfig :: config where
  "doneConfig =
     \<lparr>shared = \<lparr>jobs = [''id-1'' \<mapsto> job1\<lparr>status := Completed\<rparr>],
                results = [''id-1'' \<mapsto> CompletedResult ''id-1'' ''{}'' 2000],
                queue = [],
                ops = [SetJob ''id-1'' job1, RPush job1, BLPop job1,
                       SetResult ''id-1'' (CompletedResult ''id-1'' ''{}'' 2000),
                       SetJob ''id-1'' (job1\<lparr>status := Completed\<rparr>)]\<rparr>,
      submitting = [], worker = Idle\<rparr>"

text \<open>A JSON string token: the characters between double quotes.\<close>

definition quoted :: "string \<Rightarrow> string" where
  "quoted s = CHR 0x22 # s @ [CHR 0x22]"

definition replyEnv :: "string \<Rightarrow> WorkerEnv" where
  "replyEnv text =
     \<lparr>fetched = FetchOk ''PNG1'', reply = ApiContent (JStr text),
      syntaxMessage = ''Unexpected non-whitespace character after JSON'',
      clock = 2000, clockCatch = 2001\<rparr>"

text \<open>
  An input for the examples: an average thickness of 2 mm, two regions with chives and one
  without, the model's note, and the standard deviation and overall label as given.
\<close>

definition exampleMetrics :: "jsval \<Rightarrow> jsval \<Rightarrow> jsval" where
  "exampleMetrics sd label =
     JObj [(''averageThicknessMm'', JNum (Fin 2)),
           (''thicknessStdDevMm'', sd),
           (''cutQualityLabel'', label),
           (''rawNotes'', JStr ''Even cuts.''),
           (''regions'',
            JArr [JObj [(''id'', JStr ''r1c1''), (''regionCutQualityLabel'', JStr ''clean'')],
                  JObj [(''id'', JStr ''r1c2''), (''regionCutQualityLabel'', JStr ''mixed'')],
                  JObj [(''id'', JStr ''r1c3''), (''regionCutQualityLabel'', JStr ''no_chives'')]])]"

section \<open>Properties of the scoring rubric\<close>

subsection \<open>The four ways out of the function\<close>

lemma hasChives_active:
  "hasChives r \<Longrightarrow> getProp r ''regionCutQualityLabel'' \<noteq> JStr ''no_chives''"
  by (auto simp: hasChives_def split: jsval.splits)

lemma length_filter_mono:
  "(\<And>x. x \<in> set xs \<Longrightarrow> P x \<Longrightarrow> Q x) \<Longrightarrow> length (filter P xs) \<le> length (filter Q xs)"
  by (induction xs) (auto simp: le_SucI)

text \<open>The rubric counts no more regions than the specification calls active.\<close>

lemma length_regionsWithChives_le:
  "length (regionsWithChives regions) \<le> length (activeRegions regions)"
  unfolding regionsWithChives_def activeRegions_def
  by (rule length_filter_mono) (rule hasChives_active)

text \<open>Where every region entry carries a label, the two counts are the same.\<close>

lemma regionsWithChives_labelled:
  assumes "\<forall>r\<in>set (regionList regions). \<exists>l. getProp r ''regionCutQualityLabel'' = JStr l"
  shows "regionsWithChives regions = activeRegions regions"
  unfolding regionsWithChives_def activeRegions_def
proof (rule filter_cong[OF refl])
  fix r
  assume "r \<in> set (regionList regions)"
  then obtain l where l: "getProp r ''regionCutQualityLabel'' = JStr l" using assms by blast
  then have "truthy r" by (cases r) simp_all
  then show "hasChives r = (getProp r ''regionCutQualityLabel'' \<noteq> JStr ''no_chives'')"
    using l by (simp add: hasChives_def)
qed

lemma notesText_freeText: "freeText v \<Longrightarrow> \<exists>t. notesText v = Inr t"
  by (cases v) (auto simp: notesText_def)

lemma implausible_outside: "outsideRange x \<Longrightarrow> implausibleThickness (JNum x)"
  by (cases x) (auto simp: implausibleThickness_def)

lemma score_guardA:
  assumes "base \<noteq> JUndefined" and "base \<noteq> JNull"
    and "notesText (getProp base ''rawNotes'') = Inr t"
    and "length (regionsWithChives (getProp base ''regions'')) = 0"
  shows "scoreChiveAnalysis rnd base =
           Inr (allNull (case t of
                  Some s \<Rightarrow> s @ '' (No regions with chives detected; score not computed.)''
                | None \<Rightarrow> ''No regions with chives detected; score not computed.''))"
  using assms by (auto simp: scoreChiveAnalysis_def Let_def split: option.split)

lemma score_guardB:
  assumes "base \<noteq> JUndefined" and "base \<noteq> JNull"
    and "length (regionsWithChives (getProp base ''regions'')) = 1"
  shows "scoreChiveAnalysis rnd base =
           Inr (allNull
             ''Insufficient chive coverage (only one region contains chives); score not computed.'')"
  using assms by (auto simp: scoreChiveAnalysis_def Let_def)

lemma score_guardC:
  assumes "base \<noteq> JUndefined" and "base \<noteq> JNull"
    and "2 \<le> length (regionsWithChives (getProp base ''regions''))"
    and "implausibleThickness (getProp base ''averageThicknessMm'')"
  shows "scoreChiveAnalysis rnd base =
           Inr (allNull
             ''Model reported an implausible average thickness for chives; score not computed.'')"
  using assms by (auto simp: scoreChiveAnalysis_def Let_def)

lemma score_scored:
  assumes "base \<noteq> JUndefined" and "base \<noteq> JNull"
    and "2 \<le> length (regionsWithChives (getProp base ''regions''))"
    and "\<not> implausibleThickness (getProp base ''averageThicknessMm'')"
    and "notesText (getProp base ''rawNotes'') = Inr t"
  shows "scoreChiveAnalysis rnd base =
           Inr \<lparr>thicknessConsistencyScore =
                  thicknessConsistency rnd (getProp base ''thicknessStdDevMm''),
                cutQualityScore = cutQuality rnd (getProp base ''cutQualityLabel''),
                overallScore =
                  Some (overall rnd
                    (thicknessConsistency rnd (getProp base ''thicknessStdDevMm''))
                    (cutQuality rnd (getProp base ''cutQualityLabel''))),
                notes' = (case t of
                            Some s \<Rightarrow> s
                          | None \<Rightarrow>
                              ''Scored based on thickness uniformity and cleanliness of cuts.'')\<rparr>"
  using assms by (auto simp: scoreChiveAnalysis_def Let_def)

subsection \<open>Guards A, B and C\<close>

text \<open>
  Claim C1. For every RawMetrics (an object whose \<open>rawNotes\<close> is free text or absent):
  if at most one region is active, that is has a \<open>regionCutQualityLabel\<close> other than
  \<open>no_chives\<close>, or if \<open>averageThicknessMm\<close> is a number outside \<open>(0, 5]\<close>, then the
  rubric returns, and the three scores it returns are all null. This holds whatever the
  rounding of the arithmetic.
\<close>

theorem score_guards_all_null:
  assumes "base \<noteq> JUndefined" and "base \<noteq> JNull"
    and "freeText (getProp base ''rawNotes'')"
    and "length (activeRegions (getProp base ''regions'')) \<le> 1
         \<or> (\<exists>x. getProp base ''averageThicknessMm'' = JNum x \<and> outsideRange x)"
  shows "\<exists>n. scoreChiveAnalysis rnd base =
           Inr \<lparr>thicknessConsistencyScore = None, cutQualityScore = None,
                overallScore = None, notes' = n\<rparr>"
proof -
  obtain t where t: "notesText (getProp base ''rawNotes'') = Inr t"
    using notesText_freeText assms(3) by blast
  let ?n = "length (regionsWithChives (getProp base ''regions''))"
  consider "?n = 0" | "?n = 1" | "2 \<le> ?n" by linarith
  then have "\<exists>n. scoreChiveAnalysis rnd base = Inr (allNull n)"
  proof cases
    case 1
    then show ?thesis using score_guardA[OF assms(1,2) t] by blast
  next
    case 2
    then show ?thesis using score_guardB[OF assms(1,2)] by blast
  next
    case 3
    have "\<not> length (activeRegions (getProp base ''regions'')) \<le> 1"
      using 3 length_regionsWithChives_le[of "getProp base ''regions''"] by linarith
    then obtain x where "getProp base ''averageThicknessMm'' = JNum x" "outsideRange x"
      using assms(4) by blast
    then have "implausibleThickness (getProp base ''averageThicknessMm'')"
      by (simp add: implausible_outside)
    then show ?thesis using score_guardC[OF assms(1,2) 3] by blast
  qed
  then show ?thesis by (simp add: allNull_def)
qed

text \<open>
  Two regions with chives, one without, and an average thickness of 7 mm: Guard C.
\<close>

theorem score_guards_all_null_witness:
  "freeText (JStr ''thick'') \<and> outsideRange (Fin 7) \<and>
   scoreChiveAnalysis (\<lambda>x. x)
     (JObj [(''averageThicknessMm'', JNum (Fin 7)),
            (''thicknessStdDevMm'', JNum (Fin (1 / 2))),
            (''cutQualityLabel'', JStr ''clean''),
            (''rawNotes'', JStr ''thick''),
            (''regions'', JArr [JObj [(''id'', JStr ''r1c1''), (''regionCutQualityLabel'', JStr ''clean'')],
                                JObj [(''id'', JStr ''r1c2''), (''regionCutQualityLabel'', JStr ''mixed'')],
                                JObj [(''id'', JStr ''r1c3''), (''regionCutQualityLabel'', JStr ''no_chives'')]])])
   = Inr \<lparr>thicknessConsistencyScore = None, cutQualityScore = None, overallScore = None,
          notes' = ''Model reported an implausible average thickness for chives; score not computed.''\<rparr>"
  using score_guards_all_null
    [of "JObj [(''averageThicknessMm'', JNum (Fin 7)),
            (''thicknessStdDevMm'', JNum (Fin (1 / 2))),
            (''cutQualityLabel'', JStr ''clean''),
            (''rawNotes'', JStr ''thick''),
            (''regions'', JArr [JObj [(''id'', JStr ''r1c1''), (''regionCutQualityLabel'', JStr ''clean'')],
                                JObj [(''id'', JStr ''r1c2''), (''regionCutQualityLabel'', JStr ''mixed'')],
                                JObj [(''id'', JStr ''r1c3''), (''regionCutQualityLabel'', JStr ''no_chives'')]])]"
        "\<lambda>x. x"]
  by (simp add: scoreChiveAnalysis_def regionsWithChives_def regionList_def hasChives_def
      implausibleThickness_def allNull_def)

subsection \<open>No region with chives\<close>

lemma trim_eq_Nil_iff: "trim s = [] \<longleftrightarrow> (\<forall>c\<in>set s. isWhiteSpace c)"
proof
  assume "trim s = []"
  then have a: "\<forall>c\<in>set (dropWhile isWhiteSpace s). isWhiteSpace c"
    by (simp add: trim_def dropWhile_eq_Nil_conv)
  have "dropWhile isWhiteSpace s = []"
  proof (rule ccontr)
    assume n: "dropWhile isWhiteSpace s \<noteq> []"
    then have "\<not> isWhiteSpace (hd (dropWhile isWhiteSpace s))" by (rule hd_dropWhile)
    moreover have "hd (dropWhile isWhiteSpace s) \<in> set (dropWhile isWhiteSpace s)"
      using n by simp
    ultimately show False using a by blast
  qed
  then show "\<forall>c\<in>set s. isWhiteSpace c" by (simp add: dropWhile_eq_Nil_conv)
next
  assume "\<forall>c\<in>set s. isWhiteSpace c"
  then have "dropWhile isWhiteSpace s = []" by (simp add: dropWhile_eq_Nil_conv)
  then show "trim s = []" by (simp add: trim_def del: dropWhile_eq_Nil_conv)
qed

lemma hasChives_iff:
  "hasChives r \<longleftrightarrow> (\<exists>l. getProp r ''regionCutQualityLabel'' = JStr l \<and> l \<noteq> ''no_chives'')"
  by (cases r) (auto simp: hasChives_def split: jsval.splits option.splits)

lemma regionList_not_array: "(\<forall>rs. regions \<noteq> JArr rs) \<Longrightarrow> regionList regions = []"
  by (cases regions) (auto simp: regionList_def)

text \<open>
  Claim C10, as the code has it. Take any argument but null and undefined whose
  \<open>rawNotes\<close> is a string or falsy. If its \<open>regions\<close> is not an array, or no entry of
  \<open>regions\<close> has a string \<open>regionCutQualityLabel\<close> other than \<open>no_chives\<close> (an entry
  may be null, or an object without the label), then the rubric returns, the three scores
  are null, and the note says that no regions with chives were detected; the note starts
  with \<open>rawNotes\<close> when \<open>rawNotes\<close> has a character that is not white space.
\<close>

theorem score_no_active_regions:
  assumes "base \<noteq> JUndefined" and "base \<noteq> JNull"
    and "(\<exists>s. getProp base ''rawNotes'' = JStr s) \<or> \<not> truthy (getProp base ''rawNotes'')"
    and "(\<forall>rs. getProp base ''regions'' \<noteq> JArr rs)
         \<or> (\<forall>r\<in>set (regionList (getProp base ''regions'')).
               \<forall>l. getProp r ''regionCutQualityLabel'' = JStr l \<longrightarrow> l = ''no_chives'')"
  shows "scoreChiveAnalysis rnd base =
           Inr \<lparr>thicknessConsistencyScore = None, cutQualityScore = None, overallScore = None,
                notes' =
                  (case getProp base ''rawNotes'' of
                     JStr s \<Rightarrow>
                       if \<exists>c\<in>set s. \<not> isWhiteSpace c
                       then s @ '' (No regions with chives detected; score not computed.)''
                       else ''No regions with chives detected; score not computed.''
                   | _ \<Rightarrow> ''No regions with chives detected; score not computed.'')\<rparr>"
proof -
  have "\<forall>r\<in>set (regionList (getProp base ''regions'')). \<not> hasChives r"
    using assms(4) regionList_not_array[of "getProp base ''regions''"]
    by (auto simp: hasChives_iff)
  then have n: "length (regionsWithChives (getProp base ''regions'')) = 0"
    by (simp add: regionsWithChives_def filter_empty_conv)
  have t: "notesText (getProp base ''rawNotes'') =
        Inr (case getProp base ''rawNotes'' of
               JStr s \<Rightarrow> if \<exists>c\<in>set s. \<not> isWhiteSpace c then Some s else None
             | _ \<Rightarrow> None)"
    using assms(3) by (auto simp: notesText_def trim_eq_Nil_iff split: jsval.splits)
  show ?thesis
    unfolding score_guardA[OF assms(1,2) t n]
    by (simp add: allNull_def split: jsval.splits)
qed

text \<open>A null entry, an entry without a label and an entry labelled \<open>no_chives\<close>.\<close>

theorem score_no_active_regions_witness:
  "scoreChiveAnalysis (\<lambda>x. x)
     (JObj [(''rawNotes'', JStr ''blurry photo''), (''regions'', JArr [JNull, JObj [(''id'', JStr ''r1c2'')],
         JObj [(''regionCutQualityLabel'', JStr ''no_chives'')]])])
   = Inr \<lparr>thicknessConsistencyScore = None, cutQualityScore = None, overallScore = None,
          notes' = ''blurry photo (No regions with chives detected; score not computed.)''\<rparr>"
  using score_no_active_regions
    [of "JObj [(''rawNotes'', JStr ''blurry photo''), (''regions'', JArr [JNull, JObj [(''id'', JStr ''r1c2'')],
         JObj [(''regionCutQualityLabel'', JStr ''no_chives'')]])]" "\<lambda>x. x"]
  by (simp add: regionList_def isWhiteSpace_def)

text \<open>
  Claim C10 as stated fails twice. A \<open>rawNotes\<close> of one space is not empty, yet the note
  is not prefixed by it; and with no regions and a \<open>rawNotes\<close> that is the number 5 the
  rubric throws a TypeError.
\<close>

theorem score_blank_or_untyped_notes:
  "'' '' \<noteq> [] \<and>
   scoreChiveAnalysis (\<lambda>x. x) (JObj [(''rawNotes'', JStr '' '')])
     = Inr \<lparr>thicknessConsistencyScore = None, cutQualityScore = None, overallScore = None,
            notes' = ''No regions with chives detected; score not computed.''\<rparr> \<and>
   scoreChiveAnalysis (\<lambda>x. x) (JObj [(''rawNotes'', JNum (Fin 5))])
     = Inl (TypeError ''rawNotes.trim is not a function'')"
  by (simp add: scoreChiveAnalysis_def regionsWithChives_def regionList_def notesText_def
      trim_def isWhiteSpace_def allNull_def)

subsection \<open>The computed scores\<close>

lemma rld_mono: "roundsLikeDouble rnd \<Longrightarrow> x \<le> y \<Longrightarrow> rnd x \<le> rnd y"
  by (simp add: roundsLikeDouble_def)

lemma rld_fix: "roundsLikeDouble rnd \<Longrightarrow> rnd 0 = 0 \<and> rnd (1 / 2) = 1 / 2 \<and> rnd 1 = 1"
  by (simp add: roundsLikeDouble_def)

lemma rld_nonneg: "roundsLikeDouble rnd \<Longrightarrow> 0 \<le> x \<Longrightarrow> 0 \<le> rnd x"
  using rld_mono[of rnd 0 x] rld_fix[of rnd] by simp

lemma rld_le_1: "roundsLikeDouble rnd \<Longrightarrow> x \<le> 1 \<Longrightarrow> rnd x \<le> 1"
  using rld_mono[of rnd x 1] rld_fix[of rnd] by simp

lemma rld_rel:
  assumes "roundsLikeDouble rnd" "1 / 4 \<le> x" "x \<le> 128"
  shows "x * (999 / 1000) \<le> rnd x \<and> rnd x \<le> x * (1001 / 1000)"
proof -
  have "\<bar>rnd x - x\<bar> \<le> x / 1000"
    using assms by (simp add: roundsLikeDouble_def)
  then show ?thesis by arith
qed

lemma rld_upper:
  assumes "roundsLikeDouble rnd" "x \<le> b" "1 / 4 \<le> b" "b \<le> 128"
  shows "rnd x \<le> b * (1001 / 1000)"
  using rld_mono[OF assms(1,2)] rld_rel[OF assms(1,3,4)] by linarith

lemma rld_lower:
  assumes "roundsLikeDouble rnd" "a \<le> x" "1 / 4 \<le> a" "a \<le> 128"
  shows "a * (999 / 1000) \<le> rnd x"
  using rld_mono[OF assms(1,2)] rld_rel[OF assms(1,3,4)] by linarith

lemma toFixed2_unit:
  assumes "roundsLikeDouble rnd" "0 \<le> x" "x \<le> 1"
  shows "0 \<le> toFixed2 rnd x \<and> toFixed2 rnd x \<le> 1"
proof -
  have small: "\<not> 10 ^ 21 \<le> \<bar>x\<bar>" using assms(2,3) by simp
  have lo: "0 \<le> \<lfloor>100 * x + 1 / 2\<rfloor>" using assms(2) by simp
  have "100 * x + 1 / 2 < 101" using assms(3) by simp
  then have "\<lfloor>100 * x + 1 / 2\<rfloor> < 101" by (simp add: floor_less_iff)
  then have hi: "\<lfloor>100 * x + 1 / 2\<rfloor> \<le> 100" by simp
  have a: "0 \<le> real_of_int \<lfloor>100 * x + 1 / 2\<rfloor> / 100" using lo by simp
  have "real_of_int \<lfloor>100 * x + 1 / 2\<rfloor> \<le> 100" using hi by linarith
  then have b: "real_of_int \<lfloor>100 * x + 1 / 2\<rfloor> / 100 \<le> 1" by simp
  have "toFixed2 rnd x = rnd (real_of_int \<lfloor>100 * x + 1 / 2\<rfloor> / 100)"
    using small assms(2) by (simp add: toFixed2_def)
  then show ?thesis
    using rld_nonneg[OF assms(1) a] rld_le_1[OF assms(1) b] by simp
qed

lemma thicknessConsistency_unit:
  assumes "roundsLikeDouble rnd" "0 \<le> s"
  shows "\<exists>t. thicknessConsistency rnd (JNum (Fin s)) = Some t \<and> 0 \<le> t \<and> t \<le> 1"
proof -
  have "0 \<le> rnd (s / (3 / 2))" using assms by (simp add: rld_nonneg)
  then have "rnd (1 - rnd (s / (3 / 2))) \<le> 1" using assms(1) by (simp add: rld_le_1)
  then have "0 \<le> max 0 (rnd (1 - rnd (s / (3 / 2)))) \<and> max 0 (rnd (1 - rnd (s / (3 / 2)))) \<le> 1"
    by simp
  then show ?thesis
    using toFixed2_unit[OF assms(1)] by (simp add: thicknessConsistency_def Let_def)
qed

lemma cutQuality_cases:
  "cutQuality rnd (JStr l) = Some 1 \<or> cutQuality rnd (JStr l) = Some (rnd (7 / 10)) \<or>
   cutQuality rnd (JStr l) = Some (rnd (35 / 100)) \<or> cutQuality rnd (JStr l) = Some (1 / 2)"
  unfolding cutQuality_def Let_def by simp

lemma cutQuality_values:
  "\<exists>q. cutQuality rnd (JStr l) = Some q \<and> q \<in> {1, rnd (7 / 10), rnd (35 / 100), 1 / 2}"
  using cutQuality_cases[of rnd l] by blast

lemma cutQuality_unit:
  assumes "roundsLikeDouble rnd" "q \<in> {1, rnd (7 / 10), rnd (35 / 100), 1 / 2}"
  shows "0 \<le> q \<and> q \<le> 1"
  using assms(2) rld_nonneg[OF assms(1), of "7 / 10"] rld_le_1[OF assms(1), of "7 / 10"]
    rld_nonneg[OF assms(1), of "35 / 100"] rld_le_1[OF assms(1), of "35 / 100"]
  by auto

lemma weighted_upper:
  assumes r: "roundsLikeDouble rnd" and "0 \<le> v" "v \<le> 1" "1 / 4 \<le> w" "w \<le> 1"
  shows "0 \<le> rnd (v * rnd w) \<and> rnd (v * rnd w) \<le> w * (1001 / 1000) * (1001 / 1000)"
proof -
  have w0: "0 \<le> rnd w" using r assms(4) by (simp add: rld_nonneg)
  have w1: "rnd w \<le> w * (1001 / 1000)" using rld_rel[OF r, of w] assms(4,5) by simp
  have "v * rnd w \<le> 1 * rnd w" using assms(3) w0 by (rule mult_right_mono)
  then have le: "v * rnd w \<le> w * (1001 / 1000)" using w1 by simp
  have "0 \<le> v * rnd w" using assms(2) w0 by simp
  then have lo: "0 \<le> rnd (v * rnd w)" using r by (simp add: rld_nonneg)
  have "rnd (v * rnd w) \<le> w * (1001 / 1000) * (1001 / 1000)"
    using rld_upper[OF r le] assms(4,5) by simp
  then show ?thesis using lo by simp
qed

lemma overall_range:
  assumes r: "roundsLikeDouble rnd"
    and c: "0 \<le> c" "c \<le> 1" and q: "0 \<le> q" "q \<le> 1"
  shows "\<exists>i::int. overall rnd (Some c) (Some q) = of_int i \<and> 0 \<le> i \<and> i \<le> 100"
proof -
  let ?a = "rnd (c * rnd (6 / 10))" and ?b = "rnd (q * rnd (4 / 10))"
  have a: "0 \<le> ?a \<and> ?a \<le> 6 / 10 * (1001 / 1000) * (1001 / 1000)"
    using weighted_upper[OF r c, of "6 / 10"] by simp
  have b: "0 \<le> ?b \<and> ?b \<le> 4 / 10 * (1001 / 1000) * (1001 / 1000)"
    using weighted_upper[OF r q, of "4 / 10"] by simp
  have s0: "0 \<le> ?a + ?b" using a b by simp
  have s1: "?a + ?b \<le> 1002001 / 1000000" using a b by simp
  have t0: "0 \<le> rnd (?a + ?b)" using r s0 by (simp add: rld_nonneg)
  have t1: "rnd (?a + ?b) \<le> 1002001 / 1000000 * (1001 / 1000)"
    using rld_upper[OF r s1] by simp
  have u0: "0 \<le> rnd (?a + ?b) * 100" using t0 by simp
  have u1: "rnd (?a + ?b) * 100 \<le> 1003003001 / 10000000" using t1 by simp
  have v0: "0 \<le> rnd (rnd (?a + ?b) * 100)" using r u0 by (simp add: rld_nonneg)
  have v1: "rnd (rnd (?a + ?b) * 100) \<le> 1003003001 / 10000000 * (1001 / 1000)"
    using rld_upper[OF r u1] by simp
  let ?x = "rnd (rnd (?a + ?b) * 100)"
  have "0 \<le> \<lfloor>?x + 1 / 2\<rfloor>" using v0 by simp
  moreover have "?x + 1 / 2 < 101" using v1 by simp
  then have "\<lfloor>?x + 1 / 2\<rfloor> < 101" by (simp add: floor_less_iff)
  then have "\<lfloor>?x + 1 / 2\<rfloor> \<le> 100" by simp
  moreover have "overall rnd (Some c) (Some q) = of_int \<lfloor>?x + 1 / 2\<rfloor>"
    by (simp add: overall_def Math_round_def)
  ultimately show ?thesis by blast
qed

lemma plausible_not_implausible: "plausibleAverage v \<Longrightarrow> \<not> implausibleThickness v"
  by (cases v rule: plausibleAverage.cases) (auto simp: implausibleThickness_def)

text \<open>
  Claim C2. For every valid RawMetrics that passes Guards A, B and C (the rubric finds at
  least two regions with chives; the average thickness is absent or in \<open>(0, 5]\<close>) with a
  finite, non-negative \<open>thicknessStdDevMm\<close> and a string \<open>cutQualityLabel\<close>, the rubric
  returns a \<open>thicknessConsistencyScore\<close> in \<open>[0, 1]\<close>, a \<open>cutQualityScore\<close> that is one
  of the doubles 1.0, 0.7, 0.35 and 0.5, and an \<open>overallScore\<close> that is an integer in
  \<open>[0, 100]\<close>. This holds for the exact arithmetic and for the rounded one.
\<close>

theorem score_ranges:
  assumes "roundsLikeDouble rnd"
    and "base \<noteq> JUndefined" and "base \<noteq> JNull"
    and "freeText (getProp base ''rawNotes'')"
    and "2 \<le> length (regionsWithChives (getProp base ''regions''))"
    and "plausibleAverage (getProp base ''averageThicknessMm'')"
    and "getProp base ''thicknessStdDevMm'' = JNum (Fin s)" and "0 \<le> s"
    and "getProp base ''cutQualityLabel'' = JStr l"
  shows "\<exists>t q (i::int) n.
           scoreChiveAnalysis rnd base =
             Inr \<lparr>thicknessConsistencyScore = Some t, cutQualityScore = Some q,
                  overallScore = Some (of_int i), notes' = n\<rparr> \<and>
           0 \<le> t \<and> t \<le> 1 \<and>
           q \<in> {1, rnd (7 / 10), rnd (35 / 100), 1 / 2} \<and>
           0 \<le> i \<and> i \<le> 100"
proof -
  obtain nt where nt: "notesText (getProp base ''rawNotes'') = Inr nt"
    using notesText_freeText assms(4) by blast
  obtain t where t: "thicknessConsistency rnd (JNum (Fin s)) = Some t" "0 \<le> t" "t \<le> 1"
    using thicknessConsistency_unit[OF assms(1,8)] by blast
  obtain q where q: "cutQuality rnd (JStr l) = Some q"
      "q \<in> {1, rnd (7 / 10), rnd (35 / 100), 1 / 2}"
    using cutQuality_values by blast
  have qu: "0 \<le> q" "q \<le> 1" using cutQuality_unit[OF assms(1) q(2)] by simp_all
  obtain i :: int where i: "overall rnd (Some t) (Some q) = of_int i" "0 \<le> i" "i \<le> 100"
    using overall_range[OF assms(1) t(2,3) qu] by blast
  have "scoreChiveAnalysis rnd base =
      Inr \<lparr>thicknessConsistencyScore = Some t, cutQualityScore = Some q,
           overallScore = Some (of_int i),
           notes' = (case nt of Some s \<Rightarrow> s
                     | None \<Rightarrow> ''Scored based on thickness uniformity and cleanliness of cuts.'')\<rparr>"
    using score_scored[OF assms(2,3,5) plausible_not_implausible[OF assms(6)] nt, of rnd]
    by (simp add: assms(7,9) t(1) q(1) i(1))
  then show ?thesis using t(2,3) q(2) i(2,3) by blast
qed

lemmas ex_simps = exampleMetrics_def regionsWithChives_def regionList_def hasChives_def
  roundsLikeDouble_def

text \<open>A standard deviation of 0.3 mm and ragged cuts: 0.8, 0.35 and 62.\<close>

theorem score_ranges_witness:
  "roundsLikeDouble (\<lambda>x. x) \<and>
   scoreChiveAnalysis (\<lambda>x. x) (exampleMetrics (JNum (Fin (3 / 10))) (JStr ''Ragged'')) =
     Inr \<lparr>thicknessConsistencyScore = Some (8 / 10), cutQualityScore = Some (35 / 100),
          overallScore = Some 62, notes' = ''Even cuts.''\<rparr>"
  using score_ranges[of "\<lambda>x. x" "exampleMetrics (JNum (Fin (3 / 10))) (JStr ''Ragged'')" "3 / 10" "''Ragged''"]
  by (simp add: ex_simps scoreChiveAnalysis_def notesText_def trim_def isWhiteSpace_def implausibleThickness_def
     thicknessConsistency_def cutQuality_def overall_def toLowerCase_def toLowerCaseChar_def toFixed2_def Math_round_def
     char_of_eq_iff)

subsection \<open>The specification's examples\<close>

lemma toLowerCase_clean: "toLowerCase ''clean'' = ''clean''"
  by (simp add: toLowerCase_def toLowerCaseChar_def)

lemma thicknessConsistency_0:
  assumes "roundsLikeDouble rnd"
  shows "thicknessConsistency rnd (JNum (Fin 0)) = Some 1"
  using rld_fix[OF assms] by (simp add: thicknessConsistency_def toFixed2_def)

lemma thicknessConsistency_3_2:
  assumes "roundsLikeDouble rnd"
  shows "thicknessConsistency rnd (JNum (Fin (3 / 2))) = Some 0"
  using rld_fix[OF assms] by (simp add: thicknessConsistency_def toFixed2_def)

lemma thicknessConsistency_3_4:
  assumes "roundsLikeDouble rnd"
  shows "thicknessConsistency rnd (JNum (Fin (3 / 4))) = Some (1 / 2)"
proof -
  have h: "rnd (1 / 2) = 1 / 2" using rld_fix[OF assms] by blast
  show ?thesis by (simp add: thicknessConsistency_def toFixed2_def h)
qed

lemma overall_half_one:
  assumes r: "roundsLikeDouble rnd"
  shows "overall rnd (Some (1 / 2)) (Some 1) = 70"
proof -
  let ?d6 = "rnd (6 / 10)" and ?d4 = "rnd (4 / 10)"
  have d6: "5994 / 10000 \<le> ?d6 \<and> ?d6 \<le> 6006 / 10000"
    using rld_rel[OF r, of "6 / 10"] by simp
  have d4: "3996 / 10000 \<le> ?d4 \<and> ?d4 \<le> 4004 / 10000"
    using rld_rel[OF r, of "4 / 10"] by simp
  let ?a = "rnd (1 / 2 * ?d6)" and ?b = "rnd (1 * ?d4)"
  have a: "299 / 1000 \<le> ?a \<and> ?a \<le> 301 / 1000"
    using rld_lower[OF r, of "2997 / 10000" "1 / 2 * ?d6"]
      rld_upper[OF r, of "1 / 2 * ?d6" "3003 / 10000"] d6 by simp
  have b: "399 / 1000 \<le> ?b \<and> ?b \<le> 401 / 1000"
    using rld_lower[OF r, of "3996 / 10000" "1 * ?d4"]
      rld_upper[OF r, of "1 * ?d4" "4004 / 10000"] d4 by simp
  have s: "697 / 1000 \<le> rnd (?a + ?b) \<and> rnd (?a + ?b) \<le> 703 / 1000"
    using rld_lower[OF r, of "698 / 1000" "?a + ?b"]
      rld_upper[OF r, of "?a + ?b" "702 / 1000"] a b by simp
  let ?x = "rnd (rnd (?a + ?b) * 100)"
  have x: "696 / 10 \<le> ?x \<and> ?x \<le> 704 / 10"
    using rld_lower[OF r, of "697 / 10" "rnd (?a + ?b) * 100"]
      rld_upper[OF r, of "rnd (?a + ?b) * 100" "703 / 10"] s by simp
  have "\<lfloor>?x + 1 / 2\<rfloor> = 70"
    using x by (simp add: floor_eq_iff)
  then show ?thesis
    by (simp add: overall_def Math_round_def)
qed

text \<open>
  Claim C3. For every RawMetrics that passes the three guards: a \<open>thicknessStdDevMm\<close> of
  0 gives a \<open>thicknessConsistencyScore\<close> of 1.0, one of 1.5 gives 0, and one of 0.75 with
  the label \<open>clean\<close> gives a \<open>thicknessConsistencyScore\<close> of 0.5, a \<open>cutQualityScore\<close>
  of 1.0 and an \<open>overallScore\<close> of 70, in exact and in rounded arithmetic.
\<close>

theorem score_examples:
  assumes "roundsLikeDouble rnd"
    and "base \<noteq> JUndefined" and "base \<noteq> JNull"
    and "freeText (getProp base ''rawNotes'')"
    and "2 \<le> length (regionsWithChives (getProp base ''regions''))"
    and "plausibleAverage (getProp base ''averageThicknessMm'')"
  shows "(getProp base ''thicknessStdDevMm'' = JNum (Fin 0) \<longrightarrow>
            (\<exists>r. scoreChiveAnalysis rnd base = Inr r \<and> thicknessConsistencyScore r = Some 1)) \<and>
         (getProp base ''thicknessStdDevMm'' = JNum (Fin (3 / 2)) \<longrightarrow>
            (\<exists>r. scoreChiveAnalysis rnd base = Inr r \<and> thicknessConsistencyScore r = Some 0)) \<and>
         (getProp base ''thicknessStdDevMm'' = JNum (Fin (3 / 4)) \<and>
          getProp base ''cutQualityLabel'' = JStr ''clean'' \<longrightarrow>
            (\<exists>r. scoreChiveAnalysis rnd base = Inr r \<and>
                 thicknessConsistencyScore r = Some (1 / 2) \<and>
                 cutQualityScore r = Some 1 \<and> overallScore r = Some 70))"
proof -
  obtain nt where nt: "notesText (getProp base ''rawNotes'') = Inr nt"
    using notesText_freeText assms(4) by blast
  note sc = score_scored[OF assms(2,3,5) plausible_not_implausible[OF assms(6)] nt, of rnd]
  have c1: "cutQuality rnd (JStr ''clean'') = Some 1"
    by (simp add: cutQuality_def toLowerCase_clean)
  show ?thesis
    using sc thicknessConsistency_0[OF assms(1)] thicknessConsistency_3_2[OF assms(1)]
      thicknessConsistency_3_4[OF assms(1)] overall_half_one[OF assms(1)] c1
    by simp
qed

theorem score_examples_witness:
  "scoreChiveAnalysis (\<lambda>x. x) (exampleMetrics (JNum (Fin (3 / 4))) (JStr ''clean'')) =
     Inr \<lparr>thicknessConsistencyScore = Some (1 / 2), cutQualityScore = Some 1,
          overallScore = Some 70, notes' = ''Even cuts.''\<rparr>"
proof -
  obtain r where r: "scoreChiveAnalysis (\<lambda>x. x) (exampleMetrics (JNum (Fin (3 / 4))) (JStr ''clean'')) = Inr r"
     "thicknessConsistencyScore r = Some (1 / 2)" "cutQualityScore r = Some 1" "overallScore r = Some 70"
    using score_examples[of "\<lambda>x. x" "exampleMetrics (JNum (Fin (3 / 4))) (JStr ''clean'')"]
    by (auto simp: ex_simps)
  have "notes' r = ''Even cuts.''"
    using r(1) by (auto simp: scoreChiveAnalysis_def ex_simps notesText_def trim_def isWhiteSpace_def implausibleThickness_def Let_def)
  then show ?thesis using r by (cases r) simp
qed

section \<open>Properties of the submission service\<close>

lemma submitImages_trace:
  "submitImages ctx files acc s = (r, s') \<Longrightarrow>
     ops s' = ops s @ concat (map (\<lambda>u. [SetJob (uuid u) (jobOf ctx u), RPush (jobOf ctx u)])
                               (takeWhile uploadOk files)) \<and>
     queue s' = queue s @ map (jobOf ctx) (takeWhile uploadOk files) \<and>
     r = (case firstFailure files of
            None \<Rightarrow> Inr (acc @ map uuid files)
          | Some msg \<Rightarrow> Inl msg)"
proof (induction files arbitrary: acc s)
  case Nil
  then show ?case by simp
next
  case (Cons u us)
  show ?case
  proof (cases "media u")
    case (UploadThrows msg)
    then show ?thesis using Cons.prems by (simp add: uploadOk_def)
  next
    case (MediaUrl mediaUrl)
    let ?job = "newJob ctx u mediaUrl"
    let ?s2 = "redis_rPush ?job (redis_set_job (uuid u) ?job s)"
    have j: "jobOf ctx u = ?job" "jobId ?job = uuid u"
      using MediaUrl by (simp_all add: jobOf_def newJob_def)
    have run: "submitImages ctx us (acc @ [uuid u]) ?s2 = (r, s')"
      using Cons.prems MediaUrl by (simp add: Let_def j)
    have o: "ops ?s2 = ops s @ [SetJob (uuid u) ?job, RPush ?job]"
      by (simp add: redis_rPush_def redis_set_job_def)
    have q: "queue ?s2 = queue s @ [?job]"
      by (simp add: redis_rPush_def redis_set_job_def)
    note ih = Cons.IH[OF run, unfolded o q]
    show ?thesis
      using ih MediaUrl by (simp add: uploadOk_def j split: option.splits)
  qed
qed

lemma all_uploadOk:
  "\<forall>u\<in>set files. uploadOk u \<Longrightarrow> takeWhile uploadOk files = files \<and> firstFailure files = None"
  by (induction files) (auto simp: uploadOk_def split: uploaded.splits)

lemma submitImages_results: "results (snd (submitImages ctx files acc s)) = results s"
  by (induction files arbitrary: acc s)
     (auto simp: Let_def redis_set_job_def redis_rPush_def split: uploaded.splits)

lemma submitImages_other:
  "jid \<notin> uuid ` set files \<Longrightarrow> jobs (snd (submitImages ctx files acc s)) jid = jobs s jid"
  by (induction files arbitrary: acc s)
     (auto simp: Let_def redis_set_job_def redis_rPush_def newJob_def split: uploaded.splits)

lemma submitImages_recorded:
  "\<forall>u\<in>set files. uploadOk u \<Longrightarrow> distinct (map uuid files) \<Longrightarrow> u \<in> set files \<Longrightarrow>
     jobs (snd (submitImages ctx files acc s)) (uuid u) = Some (jobOf ctx u)"
proof (induction files arbitrary: acc s)
  case Nil
  then show ?case by simp
next
  case (Cons v vs)
  obtain mediaUrl where m: "media v = MediaUrl mediaUrl"
    using Cons.prems(1) by (auto simp: uploadOk_def split: uploaded.splits)
  let ?job = "newJob ctx v mediaUrl"
  let ?s2 = "redis_rPush ?job (redis_set_job (jobId ?job) ?job s)"
  have e: "snd (submitImages ctx (v # vs) acc s) = snd (submitImages ctx vs (acc @ [jobId ?job]) ?s2)"
    using m by (simp add: Let_def)
  show ?case
  proof (cases "u \<in> set vs")
    case True
    then show ?thesis unfolding e using Cons.IH Cons.prems by simp
  next
    case False
    then have u: "u = v" using Cons.prems(3) by simp
    have n: "uuid v \<notin> uuid ` set vs" using Cons.prems(2) by simp
    have "jobs ?s2 (uuid v) = Some ?job"
      by (simp add: redis_rPush_def redis_set_job_def newJob_def)
    then show ?thesis
      unfolding e u using submitImages_other[OF n] m by (simp add: jobOf_def)
  qed
qed

text \<open>
  Claim C7. For every batch of images that the media host accepts, and every state of
  the store and the queue, the handler makes for each image, in the order of the batch,
  one write to the store, of a pending Job record under the image's fresh job id, and
  right after it one push of that same job onto the queue, and nothing else: the history
  grows by these pairs, each write before its push, so the queue grows by the jobs in the
  order of the images and no Result is touched. The answer is the list of the job ids in
  the order of the images, and when the ids are fresh (no two alike) the store holds the
  record of each job at the end.

  The claim speaks of a batch that is submitted. When \<^verbatim>\<open>reddit.uploadMedia\<close> throws, the
  loop is left for the handler's \<^verbatim>\<open>catch\<close> and the request is answered with the
  error; the theorem is about the requests where it does not throw. The store and the
  queue, as everywhere in this theory, carry out what they are asked.
\<close>

theorem analyze_async_trace:
  assumes "\<forall>u\<in>set files. uploadOk u"
  shows "fst (analyze_async ctx files s) = Json200 (map uuid files) \<and>
         ops (snd (analyze_async ctx files s))
           = ops s @ concat (map (\<lambda>u. [SetJob (uuid u) (jobOf ctx u), RPush (jobOf ctx u)]) files) \<and>
         queue (snd (analyze_async ctx files s)) = queue s @ map (jobOf ctx) files \<and>
         results (snd (analyze_async ctx files s)) = results s \<and>
         (\<forall>u\<in>set files. jobId (jobOf ctx u) = uuid u \<and> status (jobOf ctx u) = Pending) \<and>
         (distinct (map uuid files) \<longrightarrow>
            (\<forall>u\<in>set files. jobs (snd (analyze_async ctx files s)) (uuid u) = Some (jobOf ctx u)))"
proof -
  obtain r s' where r: "submitImages ctx files [] s = (r, s')"
    by (cases "submitImages ctx files [] s")
  have t: "ops s' = ops s @ concat (map (\<lambda>u. [SetJob (uuid u) (jobOf ctx u), RPush (jobOf ctx u)]) files)"
    "queue s' = queue s @ map (jobOf ctx) files" "r = Inr (map uuid files)"
    using submitImages_trace[OF r] all_uploadOk[OF assms] by simp_all
  have a: "analyze_async ctx files s = (Json200 (map uuid files), s')"
    using r t(3) by (simp add: analyze_async_def)
  have s': "s' = snd (submitImages ctx files [] s)" using r by simp
  have res: "results s' = results s" unfolding s' by (rule submitImages_results)
  have rec: "jobs s' (uuid u) = Some (jobOf ctx u)"
    if "distinct (map uuid files)" "u \<in> set files" for u
    unfolding s' using assms that by (rule submitImages_recorded)
  have j: "jobId (jobOf ctx u) = uuid u \<and> status (jobOf ctx u) = Pending" for u
    by (simp add: jobOf_def newJob_def)
  show ?thesis unfolding a using t(1,2) res rec j by simp
qed

text \<open>
  Two images, a PNG and a JPEG, submitted when the store and the queue hold an earlier job:
  four operations, the record and the push of the first image and then those of the
  second, after the two of the earlier job.
\<close>

theorem analyze_async_trace_witness:
  "uploadOk upload1 \<and> uploadOk upload2 \<and>
   fst (analyze_async someContext [upload1, upload2] busySys) = Json200 [''id-1'', ''id-2''] \<and>
   ops (snd (analyze_async someContext [upload1, upload2] busySys))
     = [SetJob ''id-0'' job0, RPush job0,
        SetJob ''id-1'' job1, RPush job1, SetJob ''id-2'' job2, RPush job2] \<and>
   queue (snd (analyze_async someContext [upload1, upload2] busySys)) = [job0, job1, job2] \<and>
   jobs (snd (analyze_async someContext [upload1, upload2] busySys)) ''id-1'' = Some job1 \<and>
   jobs (snd (analyze_async someContext [upload1, upload2] busySys)) ''id-2'' = Some job2 \<and>
   jobs (snd (analyze_async someContext [upload1, upload2] busySys)) ''id-0'' = Some job0"
proof -
  have u: "uploadOk upload1" "uploadOk upload2"
    by (simp_all add: uploadOk_def upload1_def upload2_def)
  have j: "jobOf someContext upload1 = job1" "jobOf someContext upload2 = job2"
    by (simp_all add: jobOf_def newJob_def someContext_def upload1_def upload2_def job1_def
        job2_def orDefault_def)
  have i: "uuid upload1 = ''id-1''" "uuid upload2 = ''id-2''"
    by (simp_all add: upload1_def upload2_def)
  have a: "\<forall>u\<in>set [upload1, upload2]. uploadOk u" using u by simp
  have z: "jobs (snd (analyze_async someContext [upload1, upload2] busySys)) ''id-0'' = Some job0"
    by (simp add: analyze_async_def upload1_def upload2_def busySys_def
        redis_set_job_def redis_rPush_def newJob_def Let_def)
  show ?thesis
    using analyze_async_trace[OF a, of someContext busySys] u z
    by (simp add: j i busySys_def)
qed

text \<open>
  Claim C9, as the code has it. A request without images is not rejected: the loop has
  nothing to do, so no job is created, stored or queued, and the answer is the success
  answer with an empty list of job ids. (It is the client that sends no request for an
  empty selection.)
\<close>

theorem analyze_async_no_images: "analyze_async ctx [] s = (Json200 [], s)"
  by (simp add: analyze_async_def)

text \<open>Claim C9 as stated fails on the empty request: the answer is no error.\<close>

theorem analyze_async_no_images_accepted:
  "\<not> rejected (fst (analyze_async someContext [] emptySys))"
  by (simp add: analyze_async_def)

section \<open>Properties of the parse step\<close>

text \<open>The recogniser on a response of the expected shape, and on texts that are not JSON.\<close>

lemma JSON_wellformed_accepts:
  "JSON_wellformed
     (''{ '' @ quoted ''regions'' @ '': [ {'' @ quoted ''id'' @ '': '' @ quoted ''r1c1'' @ '', ''
        @ quoted ''regionAverageThicknessMm'' @ '': 2.5e0}, null, true ], ''
        @ quoted ''rawNotes'' @ '': '' @ quoted (''a'' @ [CHR 0x5C] @ ''u00e9'' @ [CHR 0x5C] @ ''n'')
        @ '', '' @ quoted ''n'' @ '': -0.25 } '')"
  by (simp add: JSON_wellformed_def startValue_def afterValue_def isJsonSpace_def isDigit_def
      isHexDigit_def quoted_def)

lemma JSON_wellformed_rejects:
  "\<not> JSON_wellformed (''{'' @ quoted ''a'' @ '': 1,}'')"
  "\<not> JSON_wellformed (''{'' @ quoted ''a'' @ '': 01}'')"
  "\<not> JSON_wellformed ''{a: 1}''"
  "\<not> JSON_wellformed (''{'' @ quoted ''a'' @ '': 1'')"
  "\<not> JSON_wellformed (''{'' @ quoted ''a'' @ '': tru}'')"
  "\<not> JSON_wellformed (''{'' @ quoted ''a'' @ '': 1} x'')"
  "\<not> JSON_wellformed []"
  by (simp_all add: JSON_wellformed_def startValue_def afterValue_def isJsonSpace_def isDigit_def
      isHexDigit_def quoted_def)

lemma matchBraces_example: "matchBraces ''Here you go: {} Thanks'' = Some ''{}''"
  by (simp add: matchBraces_def)

lemma JSON_wellformed_empty_object: "JSON_wellformed ''{}''"
  by (simp add: JSON_wellformed_def startValue_def isJsonSpace_def)

lemma matchBraces_span:
  assumes "matchBraces body = Some m"
  shows "bracedSpan body m"
proof -
  let ?P = "\<lambda>c. c \<noteq> CHR ''{''" and ?Q = "\<lambda>c. c \<noteq> CHR ''}''"
  obtain b rest where d: "dropWhile ?P body = b # rest"
    using assms by (auto simp: matchBraces_def split: list.splits)
  have b: "b = CHR ''{''"
    using hd_dropWhile[of ?P body] d by simp
  define t where "t = dropWhile ?Q (rev rest)"
  define pre where "pre = takeWhile ?P body"
  define post where "post = rev (takeWhile ?Q (rev rest))"
  have tm: "t \<noteq> [] \<and> m = b # rev t"
    using assms unfolding matchBraces_def d t_def
    by (cases "dropWhile ?Q (rev rest)") (simp_all del: dropWhile_eq_Nil_conv)
  have "dropWhile ?Q (rev rest) \<noteq> []" using tm unfolding t_def by blast
  then have "\<not> ?Q (hd (dropWhile ?Q (rev rest)))" by (rule hd_dropWhile)
  then have ht: "hd t = CHR ''}''" unfolding t_def by blast
  have "rev (takeWhile ?Q (rev rest) @ dropWhile ?Q (rev rest)) = rev (rev rest)"
    by (simp only: takeWhile_dropWhile_id)
  then have r: "rev t @ post = rest"
    unfolding t_def post_def by (simp only: rev_append rev_rev_ident)
  have mp: "m @ post = b # rest" using tm r by simp
  have "pre @ dropWhile ?P body = body" unfolding pre_def by (rule takeWhile_dropWhile_id)
  then have "pre @ (b # rest) = body" unfolding d .
  then have "pre @ (m @ post) = body" unfolding mp .
  then have tx: "body = pre @ m @ post" by (rule sym)
  have p1: "CHR ''{'' \<notin> set pre"
    unfolding pre_def using set_takeWhileD[of "CHR ''{''" ?P body] by blast
  have p2: "CHR ''}'' \<notin> set post"
    unfolding post_def using set_takeWhileD[of "CHR ''}''" ?Q "rev rest"] by auto
  have l: "2 \<le> length m" using tm by (cases t) simp_all
  have h: "hd m = CHR ''{''" using tm b by simp
  have "last m = last (rev t)" using tm by simp
  then have la: "last m = CHR ''}''" using ht tm by (simp add: last_rev)
  show ?thesis unfolding bracedSpan_def using tx p1 p2 l h la by blast
qed

lemma span_matchBraces:
  assumes "bracedSpan body m"
  shows "matchBraces body = Some m"
proof -
  let ?P = "\<lambda>c. c \<noteq> CHR ''{''" and ?Q = "\<lambda>c. c \<noteq> CHR ''}''"
  obtain pre post where tx: "body = pre @ m @ post"
    and p1: "CHR ''{'' \<notin> set pre" and p2: "CHR ''}'' \<notin> set post"
    and l: "2 \<le> length m" and h: "hd m = CHR ''{''" and la: "last m = CHR ''}''"
    using assms unfolding bracedSpan_def by blast
  obtain c m' where cm: "m = c # m'" using l by (cases m) auto
  have m: "m = CHR ''{'' # m'" using cm h by simp
  have m'n: "m' \<noteq> []" using l m by auto
  have lm: "last m' = CHR ''}''" using la m m'n by simp
  have "dropWhile ?P (pre @ m @ post) = dropWhile ?P (m @ post)"
    using p1 by (intro dropWhile_append2) auto
  then have d: "dropWhile ?P body = CHR ''{'' # (m' @ post)"
    using tx m by simp
  have "dropWhile ?Q (rev post @ rev m') = dropWhile ?Q (rev m')"
    using p2 by (intro dropWhile_append2) auto
  moreover have "dropWhile ?Q (rev m') = rev m'"
    using lm m'n by (cases "rev m'") (auto simp: hd_rev)
  ultimately have e: "dropWhile ?Q (rev (m' @ post)) = rev m'" by simp
  have "rev m' \<noteq> []" using m'n by simp
  then show ?thesis
    unfolding matchBraces_def d using e m by (simp split: list.splits)
qed

lemma matchBraces_iff: "matchBraces body = Some m \<longleftrightarrow> bracedSpan body m"
  using matchBraces_span span_matchBraces by blast

lemma bracedSpan_nonempty: "bracedSpan body m \<Longrightarrow> body \<noteq> []"
  by (auto simp: bracedSpan_def)

text \<open>
  Claim C6, as the code has it. For every response text that reaches the parse step, the
  worker takes the part of the text from its first \<open>{\<close> to its last \<open>}\<close>, so prose
  before and after that part is tolerated, and the result is that part when it is a JSON
  text. The job fails if and only if the response has no such part or the part is not a
  JSON text.
\<close>

theorem parse_step:
  assumes "fetched env = FetchOk bytes" and "reply env = ApiContent (JStr body)"
  shows "(analyse env job = Inr m \<longleftrightarrow> bracedSpan body m \<and> JSON_wellformed m) \<and>
         ((\<exists>msg. analyse env job = Inl msg) \<longleftrightarrow> \<not> (\<exists>m. bracedSpan body m \<and> JSON_wellformed m))"
proof -
  have a: "analyse env job = parseContent env (JStr body)"
    using assms by (simp add: analyse_def)
  show ?thesis
  proof (cases "matchBraces body")
    case None
    have n: "\<not> bracedSpan body m" for m
      using None matchBraces_iff[of body m] by simp
    have "\<exists>msg. parseContent env (JStr body) = Inl msg"
      using None by (simp add: parseContent_def)
    then show ?thesis using a n by auto
  next
    case (Some k)
    have k: "bracedSpan body k" using Some matchBraces_iff[of body k] by simp
    have u: "m = k" if "bracedSpan body m" for m
      using that Some matchBraces_iff[of body m] by simp
    have ne: "body \<noteq> []" using k by (rule bracedSpan_nonempty)
    have p: "parseContent env (JStr body) = (if JSON_wellformed k then Inr k else Inl (syntaxMessage env))"
      using Some ne by (simp add: parseContent_def)
    show ?thesis
    proof (cases "JSON_wellformed k")
      case True
      have r: "analyse env job = Inr k" using a p True by simp
      have i: "(bracedSpan body m \<and> JSON_wellformed m) = (k = m)"
        using k u[of m] True by blast
      have e: "\<exists>m. bracedSpan body m \<and> JSON_wellformed m" using k True by blast
      show ?thesis unfolding r i using e by simp
    next
      case False
      have r: "analyse env job = Inl (syntaxMessage env)" using a p False by simp
      have i: "\<not> (bracedSpan body m \<and> JSON_wellformed m)" for m
        using u[of m] False by blast
      show ?thesis unfolding r using i by simp
    qed
  qed
qed

lemma analyse_replyEnv_example: "analyse (replyEnv ''Here you go: {} Thanks'') job1 = Inr ''{}''"
  by (simp add: analyse_def replyEnv_def parseContent_def matchBraces_example
      JSON_wellformed_empty_object)

theorem parse_step_witness:
  "analyse (replyEnv ''Here you go: {} Thanks'') job1 = Inr ''{}'' \<and>
   bracedSpan ''Here you go: {} Thanks'' ''{}'' \<and> JSON_wellformed ''{}''"
  using parse_step[of "replyEnv ''Here you go: {} Thanks''" "''PNG1''" "''Here you go: {} Thanks''" job1 "''{}''"]
    analyse_replyEnv_example
  by (simp add: replyEnv_def)

text \<open>
  Claim C6 as stated fails on a response with two objects: \<open>{}\<close> is a well-formed JSON
  object inside the response, and the first one, yet the step parses everything from the
  first \<open>{\<close> to the last \<open>}\<close> and the job fails.
\<close>

theorem parse_step_greedy:
  "analyse (replyEnv ''{} and {}'') job1 = Inl ''Unexpected non-whitespace character after JSON'' \<and>
   sublist ''{}'' ''{} and {}'' \<and> JSON_wellformed ''{}''"
proof -
  have m: "matchBraces ''{} and {}'' = Some ''{} and {}''"
    by (simp add: matchBraces_def)
  have n: "\<not> JSON_wellformed ''{} and {}''"
    by (simp add: JSON_wellformed_def startValue_def isJsonSpace_def afterValue_def)
  have a: "analyse (replyEnv ''{} and {}'') job1 = Inl ''Unexpected non-whitespace character after JSON''"
    using n by (simp add: analyse_def replyEnv_def parseContent_def m)
  have "prefix ''{}'' ''{} and {}''" by simp
  then have s: "sublist ''{}'' ''{} and {}''" by (rule prefix_imp_sublist)
  show ?thesis using a s JSON_wellformed_empty_object by simp
qed

section \<open>Properties of the worker and of the steps\<close>

lemma invariant_initial: "invariant initial"
  by (simp add: invariant_def initial_def tracked_def)

lemma distinct_map_mset:
  "mset xs = mset ys \<Longrightarrow> distinct (map f xs) = distinct (map f ys)"
  by (metis mset_eq_imp_distinct_iff mset_map)

lemma newJob_simps [simp]: "jobId (newJob ctx u m) = uuid u" "status (newJob ctx u m) = Pending"
  by (simp_all add: newJob_def)

lemma resultStatus_not_Pending [simp]: "resultStatus r \<noteq> Pending"
  by (cases r) simp_all

lemma redis_set_job_simps [simp]:
  "jobs (redis_set_job jid job s) = (jobs s)(jid \<mapsto> job)"
  "results (redis_set_job jid job s) = results s"
  "queue (redis_set_job jid job s) = queue s"
  "ops (redis_set_job jid job s) = ops s @ [SetJob jid job]"
  by (simp_all add: redis_set_job_def)

lemma redis_set_result_simps [simp]:
  "jobs (redis_set_result jid r s) = jobs s"
  "results (redis_set_result jid r s) = (results s)(jid \<mapsto> r)"
  "queue (redis_set_result jid r s) = queue s"
  "ops (redis_set_result jid r s) = ops s @ [SetResult jid r]"
  by (simp_all add: redis_set_result_def)

lemma redis_rPush_simps [simp]:
  "jobs (redis_rPush job s) = jobs s"
  "results (redis_rPush job s) = results s"
  "queue (redis_rPush job s) = queue s @ [job]"
  "ops (redis_rPush job s) = ops s @ [RPush job]"
  by (simp_all add: redis_rPush_def)

lemma redis_blPop_Some:
  "redis_blPop s = (Some job, s') \<Longrightarrow>
     \<exists>rest. queue s = job # rest \<and> queue s' = rest \<and> jobs s' = jobs s \<and>
            results s' = results s \<and> ops s' = ops s @ [BLPop job]"
  by (auto simp: redis_blPop_def split: list.splits)

lemma inv_record_job:
  assumes i: "invariant c"
    and f: "jobs (shared c) (uuid u) = None" "results (shared c) (uuid u) = None"
    and j: "job = newJob ctx u mediaUrl"
  shows "invariant (c\<lparr>shared := redis_set_job (jobId job) job (shared c),
                      submitting := job # submitting c\<rparr>)"
proof -
  let ?c' = "c\<lparr>shared := redis_set_job (jobId job) job (shared c), submitting := job # submitting c\<rparr>"
  have t: "tracked ?c' = job # tracked c" by (simp add: tracked_def)
  have js: "jobs (shared ?c') = (jobs (shared c))(uuid u \<mapsto> job)"
    and rs: "results (shared ?c') = results (shared c)"
    and w: "worker ?c' = worker c"
    using j by (simp_all add: redis_set_job_def)
  have fresh: "\<forall>x\<in>set (tracked c). jobId x \<noteq> uuid u"
    using i f(1) by (auto simp: invariant_def)
  show ?thesis
    unfolding invariant_def t js rs w
    using i f fresh j by (auto simp: invariant_def)
qed


lemma inv_push_job:
  assumes i: "invariant c" and m: "job \<in> set (submitting c)"
  shows "invariant (c\<lparr>shared := redis_rPush job (shared c),
                      submitting := remove1 job (submitting c)\<rparr>)"
proof -
  let ?c' = "c\<lparr>shared := redis_rPush job (shared c), submitting := remove1 job (submitting c)\<rparr>"
  have ms: "mset (tracked ?c') = mset (tracked c)"
    using m by (simp add: tracked_def)
  have d: "distinct (map jobId (tracked ?c')) = distinct (map jobId (tracked c))"
    by (rule distinct_map_mset[OF ms])
  have st: "set (tracked ?c') = set (tracked c)"
    using ms by (rule mset_eq_setD)
  have js: "jobs (shared ?c') = jobs (shared c)"
    and rs: "results (shared ?c') = results (shared c)"
    and w: "worker ?c' = worker c"
    by simp_all
  show ?thesis
    unfolding invariant_def d st js rs w using i unfolding invariant_def by blast
qed

lemma inv_pop_job:
  assumes i: "invariant c" and w: "worker c = Idle"
    and p: "redis_blPop (shared c) = (Some job, s')"
  shows "invariant (c\<lparr>shared := s', worker := Holding job\<rparr>)"
proof -
  let ?c' = "c\<lparr>shared := s', worker := Holding job\<rparr>"
  obtain rest where q: "queue (shared c) = job # rest" "queue s' = rest"
      "jobs s' = jobs (shared c)" "results s' = results (shared c)"
    using redis_blPop_Some[OF p] by blast
  have ms: "mset (tracked ?c') = mset (tracked c)"
    using w q by (simp add: tracked_def)
  have d: "distinct (map jobId (tracked ?c')) = distinct (map jobId (tracked c))"
    by (rule distinct_map_mset[OF ms])
  have st: "set (tracked ?c') = set (tracked c)"
    using ms by (rule mset_eq_setD)
  have js: "jobs (shared ?c') = jobs (shared c)"
    and rs: "results (shared ?c') = results (shared c)"
    using q by simp_all
  have w': "\<And>j st. worker ?c' \<noteq> Updating j st" "\<And>j st. worker c \<noteq> Updating j st"
    using w by simp_all
  show ?thesis
    unfolding invariant_def d st js rs using i w' unfolding invariant_def by blast
qed

lemma inv_write_result:
  assumes i: "invariant c" and w: "worker c = Holding job"
  shows "invariant (c\<lparr>shared := redis_set_result (jobId job) r (shared c),
                      worker := Updating job (resultStatus r)\<rparr>)"
proof -
  let ?c' = "c\<lparr>shared := redis_set_result (jobId job) r (shared c),
               worker := Updating job (resultStatus r)\<rparr>"
  have t: "tracked c = tracked ?c' @ [job]"
    using w by (simp add: tracked_def)
  have d0: "distinct (map jobId (tracked ?c' @ [job]))"
    using i unfolding invariant_def t by blast
  have d: "distinct (map jobId (tracked ?c'))" using d0 by simp
  have n0: "jobId job \<notin> jobId ` set (tracked ?c')" using d0 by simp
  have nin: "\<forall>x\<in>set (tracked ?c'). jobId x \<noteq> jobId job"
  proof
    fix x
    assume x: "x \<in> set (tracked ?c')"
    show "jobId x \<noteq> jobId job"
    proof
      assume e: "jobId x = jobId job"
      have "jobId x \<in> jobId ` set (tracked ?c')" using x by (rule imageI)
      then have "jobId job \<in> jobId ` set (tracked ?c')" by (simp only: e)
      with n0 show False by (rule notE)
    qed
  qed
  obtain stored where s: "jobs (shared c) (jobId job) = Some stored" "status stored = Pending"
    using i unfolding invariant_def t by auto
  have tr: "\<forall>x\<in>set (tracked ?c').
        (\<exists>stored. jobs (shared c) (jobId x) = Some stored \<and> status stored = Pending) \<and>
        results (shared c) (jobId x) = None"
    using i unfolding invariant_def t by simp
  have old: "\<forall>jid r. results (shared c) jid = Some r \<longrightarrow>
        (\<exists>stored. jobs (shared c) jid = Some stored \<and> status stored = resultStatus r)"
    using i w unfolding invariant_def by auto
  have left: "\<forall>jid stored. jobs (shared c) jid = Some stored \<longrightarrow> status stored \<noteq> Pending \<longrightarrow>
        (\<exists>r. results (shared c) jid = Some r \<and> resultStatus r = status stored)"
    using i unfolding invariant_def by blast
  have js: "jobs (shared ?c') = jobs (shared c)"
    and rs: "results (shared ?c') = (results (shared c))(jobId job \<mapsto> r)"
    and w': "worker ?c' = Updating job (resultStatus r)"
    by simp_all
  show ?thesis
    unfolding invariant_def js rs w'
  proof (intro conjI)
    show "distinct (map jobId (tracked ?c'))" by (rule d)
    show "\<forall>x\<in>set (tracked ?c').
        (\<exists>stored. jobs (shared c) (jobId x) = Some stored \<and> status stored = Pending) \<and>
        ((results (shared c))(jobId job \<mapsto> r)) (jobId x) = None"
      using tr nin by auto
    show "\<forall>j st. Updating job (resultStatus r) = Updating j st \<longrightarrow>
        (\<exists>stored ra. jobs (shared c) (jobId j) = Some stored \<and> status stored = Pending \<and>
           ((results (shared c))(jobId job \<mapsto> r)) (jobId j) = Some ra \<and> resultStatus ra = st)"
      using s by auto
    show "\<forall>jid ra. ((results (shared c))(jobId job \<mapsto> r)) jid = Some ra \<longrightarrow>
        (\<exists>stored. jobs (shared c) jid = Some stored \<and>
           (status stored = resultStatus ra \<or>
            status stored = Pending \<and>
            (\<exists>j. Updating job (resultStatus r) = Updating j (resultStatus ra) \<and> jobId j = jid)))"
      using s old by auto
    show "\<forall>jid stored. jobs (shared c) jid = Some stored \<longrightarrow> status stored \<noteq> Pending \<longrightarrow>
        (\<exists>ra. ((results (shared c))(jobId job \<mapsto> r)) jid = Some ra \<and>
              resultStatus ra = status stored)"
      using s left by auto
  qed
qed

lemma inv_update_job:
  assumes i: "invariant c" and w: "worker c = Updating job st"
    and g: "jobs (shared c) (jobId job) = Some stored"
  shows "invariant (c\<lparr>shared := redis_set_job (jobId job) (stored\<lparr>status := st\<rparr>) (shared c),
                      worker := Idle\<rparr>)"
proof -
  let ?c' = "c\<lparr>shared := redis_set_job (jobId job) (stored\<lparr>status := st\<rparr>) (shared c),
               worker := Idle\<rparr>"
  have t: "tracked ?c' = tracked c"
    using w by (simp add: tracked_def)
  obtain r where r: "results (shared c) (jobId job) = Some r" "resultStatus r = st"
    using i w unfolding invariant_def by auto
  have tr: "\<forall>x\<in>set (tracked c).
        (\<exists>stored. jobs (shared c) (jobId x) = Some stored \<and> status stored = Pending) \<and>
        results (shared c) (jobId x) = None"
    using i unfolding invariant_def by blast
  have nin: "\<forall>x\<in>set (tracked c). jobId x \<noteq> jobId job"
    using tr r(1) by auto
  have i4: "\<forall>jid r. results (shared c) jid = Some r \<longrightarrow>
        (\<exists>stored. jobs (shared c) jid = Some stored \<and>
           (status stored = resultStatus r \<or>
            status stored = Pending \<and>
            (\<exists>job. worker c = Updating job (resultStatus r) \<and> jobId job = jid)))"
    using i unfolding invariant_def by blast
  have old: "\<forall>jid ra. results (shared c) jid = Some ra \<longrightarrow> jid \<noteq> jobId job \<longrightarrow>
        (\<exists>stored. jobs (shared c) jid = Some stored \<and> status stored = resultStatus ra)"
  proof (intro allI impI)
    fix jid ra
    assume a: "results (shared c) jid = Some ra" "jid \<noteq> jobId job"
    from i4 a(1) obtain sd where sd: "jobs (shared c) jid = Some sd"
        "status sd = resultStatus ra \<or>
         status sd = Pending \<and> (\<exists>j. worker c = Updating j (resultStatus ra) \<and> jobId j = jid)"
      by blast
    then show "\<exists>stored. jobs (shared c) jid = Some stored \<and> status stored = resultStatus ra"
      using w a(2) by auto
  qed
  have left: "\<forall>jid stored. jobs (shared c) jid = Some stored \<longrightarrow> status stored \<noteq> Pending \<longrightarrow>
        (\<exists>r. results (shared c) jid = Some r \<and> resultStatus r = status stored)"
    using i unfolding invariant_def by blast
  have js: "jobs (shared ?c') = (jobs (shared c))(jobId job \<mapsto> stored\<lparr>status := st\<rparr>)"
    and rs: "results (shared ?c') = results (shared c)"
    and w': "worker ?c' = Idle"
    by simp_all
  show ?thesis
    unfolding invariant_def t js rs w'
  proof (intro conjI)
    show "distinct (map jobId (tracked c))" using i unfolding invariant_def by blast
    show "\<forall>x\<in>set (tracked c).
        (\<exists>s. ((jobs (shared c))(jobId job \<mapsto> stored\<lparr>status := st\<rparr>)) (jobId x) = Some s \<and>
             status s = Pending) \<and>
        results (shared c) (jobId x) = None"
      using tr nin by auto
    show "\<forall>j sta. Idle = Updating j sta \<longrightarrow>
        (\<exists>s ra. ((jobs (shared c))(jobId job \<mapsto> stored\<lparr>status := st\<rparr>)) (jobId j) = Some s \<and>
           status s = Pending \<and> results (shared c) (jobId j) = Some ra \<and> resultStatus ra = sta)"
      by simp
    show "\<forall>jid ra. results (shared c) jid = Some ra \<longrightarrow>
        (\<exists>s. ((jobs (shared c))(jobId job \<mapsto> stored\<lparr>status := st\<rparr>)) jid = Some s \<and>
           (status s = resultStatus ra \<or>
            status s = Pending \<and> (\<exists>j. Idle = Updating j (resultStatus ra) \<and> jobId j = jid)))"
      using old r by auto
    show "\<forall>jid s. ((jobs (shared c))(jobId job \<mapsto> stored\<lparr>status := st\<rparr>)) jid = Some s \<longrightarrow>
        status s \<noteq> Pending \<longrightarrow>
        (\<exists>ra. results (shared c) jid = Some ra \<and> resultStatus ra = status s)"
      using left r by auto
  qed
qed

lemma inv_no_missing:
  assumes i: "invariant c" and w: "worker c = Updating job st"
  shows "jobs (shared c) (jobId job) \<noteq> None"
  using i w unfolding invariant_def by auto

lemma step_invariant: "step c c' \<Longrightarrow> invariant c \<Longrightarrow> invariant c'"
proof (induction rule: step.induct)
  case (record_job c u job ctx mediaUrl)
  show ?case by (rule inv_record_job[OF record_job.prems record_job.hyps])
next
  case (push_job job c)
  then show ?case by (simp add: inv_push_job)
next
  case (pop_job c job s')
  then show ?case by (simp add: inv_pop_job)
next
  case (write_result c job r env)
  then show ?case by (simp add: inv_write_result)
next
  case (update_job c job st stored)
  then show ?case by (simp add: inv_update_job)
next
  case (update_missing_try c job env)
  then show ?case using inv_no_missing by blast
next
  case (update_missing_catch c job)
  then show ?case using inv_no_missing by blast
qed

lemma reachable_invariant: "reachable c \<Longrightarrow> invariant c"
  unfolding reachable_def
  by (induction rule: rtranclp_induct) (simp_all add: invariant_initial step_invariant)

lemma job1_newJob: "job1 = newJob someContext upload1 ''https://i.redd.it/1.png''"
  by (simp add: job1_def newJob_def someContext_def upload1_def orDefault_def)

lemma jobId_job1 [simp]: "jobId job1 = ''id-1''"
  by (simp add: job1_def)


lemma analyse_example: "analyse workerEnv1 job1 = Inr ''{}''"
  by (simp add: analyse_def workerEnv1_def parseContent_def matchBraces_example
      JSON_wellformed_empty_object)

lemma env1_clock [simp]: "clock workerEnv1 = 2000" "clockCatch workerEnv1 = 2001"
  by (simp_all add: workerEnv1_def)

lemma reachable_initial: "reachable initial"
  by (simp add: reachable_def)

lemma reachable_step: "reachable c \<Longrightarrow> step c c' \<Longrightarrow> reachable c'"
  unfolding reachable_def by (rule rtranclp.rtrancl_into_rtrancl)

lemma reachable_popped: "reachable poppedConfig"
proof -
  let ?c1 = "\<lparr>shared = \<lparr>jobs = [''id-1'' \<mapsto> job1], results = Map.empty, queue = [],
                ops = [SetJob ''id-1'' job1]\<rparr>, submitting = [job1], worker = Idle\<rparr>"
  let ?c2 = "\<lparr>shared = \<lparr>jobs = [''id-1'' \<mapsto> job1], results = Map.empty, queue = [job1],
                ops = [SetJob ''id-1'' job1, RPush job1]\<rparr>, submitting = [], worker = Idle\<rparr>"
  have "step initial (initial\<lparr>shared := redis_set_job (jobId job1) job1 (shared initial),
                                submitting := job1 # submitting initial\<rparr>)"
    by (rule record_job[OF _ _ job1_newJob]) (simp_all add: initial_def)
  then have s1: "step initial ?c1"
    by (simp add: initial_def redis_set_job_def)
  have "step ?c1 (?c1\<lparr>shared := redis_rPush job1 (shared ?c1),
                        submitting := remove1 job1 (submitting ?c1)\<rparr>)"
    by (rule push_job) simp
  then have s2: "step ?c1 ?c2"
    by (simp add: redis_rPush_def)
  have "step ?c2 (?c2\<lparr>shared := shared poppedConfig, worker := Holding job1\<rparr>)"
    by (rule pop_job) (simp_all add: redis_blPop_def poppedConfig_def)
  then have s3: "step ?c2 poppedConfig"
    by (simp add: poppedConfig_def)
  show ?thesis
    using reachable_initial s1 s2 s3 reachable_step by blast
qed

lemma step_popped_window: "step poppedConfig windowConfig"
proof -
  let ?r = "CompletedResult ''id-1'' ''{}'' 2000"
  have "step poppedConfig
          (poppedConfig\<lparr>shared := redis_set_result (jobId job1) ?r (shared poppedConfig),
                         worker := Updating job1 (resultStatus ?r)\<rparr>)"
    by (rule write_result[where env = workerEnv1])
       (simp_all add: poppedConfig_def analyse_example)
  then show ?thesis
    by (simp add: poppedConfig_def windowConfig_def redis_set_result_def)
qed

lemma reachable_window: "reachable windowConfig"
  using reachable_popped step_popped_window by (rule reachable_step)

lemma step_window_done: "step windowConfig doneConfig"
proof -
  have "step windowConfig
          (windowConfig\<lparr>shared := redis_set_job (jobId job1) (job1\<lparr>status := Completed\<rparr>)
                                    (shared windowConfig),
                         worker := Idle\<rparr>)"
    by (rule update_job) (simp_all add: windowConfig_def)
  then show ?thesis
    by (simp add: windowConfig_def doneConfig_def redis_set_job_def)
qed

lemma reachable_done: "reachable doneConfig"
  using reachable_window step_window_done by (rule reachable_step)

text \<open>
  Claim C8, as the code has it. In every reachable configuration and for every job id: if
  the stored status of the job is completed or failed, a Result of that status exists;
  and if a Result exists, the job record exists and has the status of the Result, except
  that between the worker's write of the Result and its update of the job record the
  status is still pending.
\<close>

theorem result_and_status:
  assumes "reachable c"
  shows "(\<forall>stored. jobs (shared c) jid = Some stored \<longrightarrow> status stored \<noteq> Pending \<longrightarrow>
            (\<exists>r. results (shared c) jid = Some r \<and> resultStatus r = status stored)) \<and>
         (\<forall>r. results (shared c) jid = Some r \<longrightarrow>
            (\<exists>stored. jobs (shared c) jid = Some stored \<and>
               (status stored = resultStatus r \<or>
                status stored = Pending \<and>
                (\<exists>job. worker c = Updating job (resultStatus r) \<and> jobId job = jid))))"
  using reachable_invariant[OF assms] unfolding invariant_def by blast

theorem result_and_status_witness:
  "reachable doneConfig \<and>
   results (shared doneConfig) ''id-1'' = Some (CompletedResult ''id-1'' ''{}'' 2000) \<and>
   map_option status (jobs (shared doneConfig) ''id-1'') = Some Completed"
  using result_and_status[OF reachable_done, of "''id-1''"] reachable_done
  by (simp add: doneConfig_def)

text \<open>
  So the two sides are equivalent wherever the worker is not between its two writes, in
  particular whenever it is idle.
\<close>

lemma result_iff_left_pending:
  assumes "reachable c" and "\<forall>job st. worker c \<noteq> Updating job st"
  shows "(\<exists>r. results (shared c) jid = Some r) \<longleftrightarrow>
         (\<exists>stored. jobs (shared c) jid = Some stored \<and> status stored \<noteq> Pending)"
proof
  assume "\<exists>r. results (shared c) jid = Some r"
  then obtain r where r: "results (shared c) jid = Some r" by blast
  then obtain stored where "jobs (shared c) jid = Some stored" "status stored = resultStatus r"
    using reachable_invariant[OF assms(1)] assms(2) unfolding invariant_def by blast
  then show "\<exists>stored. jobs (shared c) jid = Some stored \<and> status stored \<noteq> Pending"
    by simp
next
  assume "\<exists>stored. jobs (shared c) jid = Some stored \<and> status stored \<noteq> Pending"
  then show "\<exists>r. results (shared c) jid = Some r"
    using reachable_invariant[OF assms(1)] unfolding invariant_def by blast
qed

text \<open>
  Claim C8 as stated fails in the configuration the worker is in after its first write:
  the Result of the job exists and the stored status of the job is pending.
\<close>

theorem result_before_status:
  "reachable windowConfig \<and>
   results (shared windowConfig) ''id-1'' = Some (CompletedResult ''id-1'' ''{}'' 2000) \<and>
   map_option status (jobs (shared windowConfig) ''id-1'') = Some Pending"
  using reachable_window by (simp add: windowConfig_def job1_def)

lemma processJob_stored:
  assumes "jobs s (jobId job) = Some stored"
  shows "processJob env job s =
     (Inr (),
      (case analyse env job of
         Inr result \<Rightarrow>
           redis_set_job (jobId job) (stored\<lparr>status := Completed\<rparr>)
             (redis_set_result (jobId job) (CompletedResult (jobId job) result (clock env)) s)
       | Inl msg \<Rightarrow>
           redis_set_job (jobId job) (stored\<lparr>status := Failed\<rparr>)
             (redis_set_result (jobId job) (FailedResult (jobId job) msg (clockCatch env)) s)))"
  using assms by (simp add: processJob_def catchBlock_def Let_def split: sum.splits)

text \<open>The failures of the analysis and their messages, and its success.\<close>

lemma analyse_fetch_throws: "fetched env = FetchThrows msg \<Longrightarrow> analyse env job = Inl msg"
  by (simp add: analyse_def)









text \<open>
  In the steps of the handler and the worker, which have no expiry, the record of a popped
  job is there and pending.
\<close>

lemma held_job_recorded:
  assumes "reachable c" and "worker c = Holding job"
  shows "\<exists>stored. jobs (shared c) (jobId job) = Some stored \<and> status stored = Pending"
proof -
  have "job \<in> set (tracked c)" using assms(2) by (simp add: tracked_def)
  then show ?thesis using reachable_invariant[OF assms(1)] unfolding invariant_def by blast
qed




text \<open>
  For any job without a record, after any analysis: the failed Result is written, also
  after a successful analysis, and the TypeError leaves \<open>processJob\<close>.
\<close>

lemma processJob_record_missing:
  assumes "jobs s (jobId job) = None"
  shows "fst (processJob env job s) = Inl (TypeError ''Cannot set properties of null'') \<and>
         results (snd (processJob env job s)) (jobId job) =
           Some (FailedResult (jobId job)
                   (case analyse env job of
                      Inl msg \<Rightarrow> msg
                    | Inr result \<Rightarrow> ''Cannot set properties of null'')
                   (clockCatch env)) \<and>
         jobs (snd (processJob env job s)) = jobs s"
  using assms by (simp add: processJob_def catchBlock_def Let_def split: sum.splits)

text \<open>
  One turn of the worker's loop: nothing on an empty queue; otherwise the job at the head
  of the queue is popped and processed. When the image fetch of that job throws, the store
  holds the failed Result with the message of the error at the end of the turn.
\<close>

lemma pollQueue_turn_empty: "queue s = [] \<Longrightarrow> pollQueue_turn env s = s"
  by (simp add: pollQueue_turn_def redis_blPop_def)

lemma pollQueue_turn_head:
  "queue s = job # rest \<Longrightarrow>
     pollQueue_turn env s
       = snd (processJob env job (s\<lparr>queue := rest, ops := ops s @ [BLPop job]\<rparr>))"
  by (simp add: pollQueue_turn_def redis_blPop_def)

lemma fetch_throws_one_turn:
  assumes "reachable c" and "queue (shared c) = job # rest" and "fetched env = FetchThrows msg"
  shows "results (pollQueue_turn env (shared c)) (jobId job)
           = Some (FailedResult (jobId job) msg (clockCatch env))"
proof -
  have "job \<in> set (queue (shared c))" using assms(2) by simp
  then have "job \<in> set (tracked c)" by (simp add: tracked_def)
  then obtain stored where "jobs (shared c) (jobId job) = Some stored"
    using reachable_invariant[OF assms(1)] unfolding invariant_def by blast
  then have s: "jobs (shared c\<lparr>queue := rest, ops := ops (shared c) @ [BLPop job]\<rparr>) (jobId job)
      = Some stored"
    by simp
  show ?thesis
    unfolding pollQueue_turn_head[OF assms(2)] processJob_stored[OF s]
    by (simp add: analyse_fetch_throws[OF assms(3)])
qed

text \<open>No job is in the queue before it is recorded.\<close>

lemma queued_job_recorded:
  assumes "reachable c" and "job \<in> set (queue (shared c))"
  shows "\<exists>stored. jobs (shared c) (jobId job) = Some stored \<and> status stored = Pending"
proof -
  have "job \<in> set (tracked c)" using assms(2) by (simp add: tracked_def)
  then show ?thesis using reachable_invariant[OF assms(1)] unfolding invariant_def by blast
qed

text \<open>What \<open>processJob\<close> does is two steps of the worker.\<close>

lemma processJob_steps:
  assumes w: "worker c = Holding job" and s: "jobs (shared c) (jobId job) = Some stored"
  shows "step\<^sup>*\<^sup>* c (c\<lparr>shared := snd (processJob env job (shared c)), worker := Idle\<rparr>)"
proof -
  let ?r = "case analyse env job of
              Inr result \<Rightarrow> CompletedResult (jobId job) result (clock env)
            | Inl msg \<Rightarrow> FailedResult (jobId job) msg (clockCatch env)"
  let ?c1 = "c\<lparr>shared := redis_set_result (jobId job) ?r (shared c),
               worker := Updating job (resultStatus ?r)\<rparr>"
  have a: "step c ?c1" using write_result[OF w, of ?r env] by simp
  have "step ?c1 (?c1\<lparr>shared := redis_set_job (jobId job) (stored\<lparr>status := resultStatus ?r\<rparr>)
                                  (shared ?c1), worker := Idle\<rparr>)"
    by (rule update_job) (simp_all add: s)
  moreover have "?c1\<lparr>shared := redis_set_job (jobId job) (stored\<lparr>status := resultStatus ?r\<rparr>)
                                  (shared ?c1), worker := Idle\<rparr>
      = c\<lparr>shared := snd (processJob env job (shared c)), worker := Idle\<rparr>"
    unfolding processJob_stored[OF s] by (simp split: sum.splits)
  ultimately have b: "step ?c1 (c\<lparr>shared := snd (processJob env job (shared c)), worker := Idle\<rparr>)"
    by simp
  show ?thesis using a b by (rule converse_rtranclp_into_rtranclp[OF _ r_into_rtranclp])
qed

text \<open>
  What the handler does for a batch with fresh identifiers is a run of its steps, two for
  each image.
\<close>

lemma notin_image_neq: "f a \<notin> f ` A \<Longrightarrow> x \<in> A \<Longrightarrow> f x \<noteq> f a"
  by (metis imageI)

lemma submit_one_steps:
  assumes f: "jobs (shared c) (uuid u) = None" "results (shared c) (uuid u) = None"
  shows "step\<^sup>*\<^sup>* c
           (c\<lparr>shared := redis_rPush (newJob ctx u mediaUrl)
                          (redis_set_job (uuid u) (newJob ctx u mediaUrl) (shared c))\<rparr>)"
proof -
  let ?job = "newJob ctx u mediaUrl"
  let ?c1 = "c\<lparr>shared := redis_set_job (jobId ?job) ?job (shared c),
               submitting := ?job # submitting c\<rparr>"
  have a: "step c ?c1" by (rule record_job[OF f refl])
  have "step ?c1 (?c1\<lparr>shared := redis_rPush ?job (shared ?c1),
                        submitting := remove1 ?job (submitting ?c1)\<rparr>)"
    by (rule push_job) simp
  then have b: "step ?c1 (c\<lparr>shared := redis_rPush ?job (redis_set_job (uuid u) ?job (shared c))\<rparr>)"
    by simp
  show ?thesis using a b by (rule converse_rtranclp_into_rtranclp[OF _ r_into_rtranclp])
qed

lemma submitImages_steps:
  assumes "distinct (map uuid files)"
    and "\<forall>u\<in>set files. jobs (shared c) (uuid u) = None \<and> results (shared c) (uuid u) = None"
  shows "step\<^sup>*\<^sup>* c (c\<lparr>shared := snd (submitImages ctx files acc (shared c))\<rparr>)"
  using assms
proof (induction files arbitrary: c acc)
  case Nil
  then show ?case by simp
next
  case (Cons u us)
  show ?case
  proof (cases "media u")
    case (UploadThrows msg)
    then show ?thesis by simp
  next
    case (MediaUrl mediaUrl)
    let ?job = "newJob ctx u mediaUrl"
    let ?s2 = "redis_rPush ?job (redis_set_job (uuid u) ?job (shared c))"
    let ?c2 = "c\<lparr>shared := ?s2\<rparr>"
    have f: "jobs (shared c) (uuid u) = None" "results (shared c) (uuid u) = None"
      using Cons.prems(2) by simp_all
    have one: "step\<^sup>*\<^sup>* c ?c2" by (rule submit_one_steps[OF f])
    have d: "distinct (map uuid us)" and n: "uuid u \<notin> uuid ` set us"
      using Cons.prems(1) by simp_all
    have fr: "\<forall>v\<in>set us. jobs (shared ?c2) (uuid v) = None \<and> results (shared ?c2) (uuid v) = None"
      using Cons.prems(2) notin_image_neq[OF n] by simp
    have rest: "step\<^sup>*\<^sup>* ?c2 (?c2\<lparr>shared := snd (submitImages ctx us (acc @ [uuid u]) (shared ?c2))\<rparr>)"
      by (rule Cons.IH[OF d fr])
    have e: "snd (submitImages ctx (u # us) acc (shared c))
        = snd (submitImages ctx us (acc @ [uuid u]) ?s2)"
      using MediaUrl by (simp add: Let_def)
    have "?c2\<lparr>shared := snd (submitImages ctx us (acc @ [uuid u]) (shared ?c2))\<rparr>
        = c\<lparr>shared := snd (submitImages ctx (u # us) acc (shared c))\<rparr>"
      unfolding e by simp
    then show ?thesis using one rest by simp
  qed
qed

lemma analyze_async_steps:
  assumes "distinct (map uuid files)"
    and "\<forall>u\<in>set files. jobs (shared c) (uuid u) = None \<and> results (shared c) (uuid u) = None"
  shows "step\<^sup>*\<^sup>* c (c\<lparr>shared := snd (analyze_async ctx files (shared c))\<rparr>)"
proof -
  have "snd (analyze_async ctx files (shared c)) = snd (submitImages ctx files [] (shared c))"
    by (simp add: analyze_async_def split: prod.splits sum.splits)
  then show ?thesis using submitImages_steps[OF assms, of ctx "[]"] by simp
qed

end
